theory Spec2Isabelle
  imports Main
begin

section \<open>Strings of the source language\<close>

text \<open>
  The program is TypeScript; its strings are sequences of UTF-16 code units. They are
  modelled as \<open>string\<close> (lists of \<open>char\<close>), a \<open>char\<close> standing for the code unit
  of the same number, so the model covers the code units below 256 (ASCII and the
  Latin-1 supplement). \<open>length\<close> is then the \<open>.length\<close> of the source.
\<close>

text \<open>
  \<open>String.prototype.trim\<close> and the class \<open>\s\<close> of a regular expression remove or
  match WhiteSpace and LineTerminator. Below 256 these are TAB, LF, VT, FF, CR, SP and
  NBSP.
\<close>

definition whiteSpaceUnits :: string where
  "whiteSpaceUnits = [CHR 0x09, CHR 0x0A, CHR 0x0B, CHR 0x0C, CHR 0x0D, CHR 0x20, CHR 0xA0]"

definition isWhiteSpace :: "char \<Rightarrow> bool" where
  "isWhiteSpace c = (c \<in> set whiteSpaceUnits)"

definition trimStart :: "string \<Rightarrow> string" where
  "trimStart s = dropWhile isWhiteSpace s"

definition trimEnd :: "string \<Rightarrow> string" where
  "trimEnd s = rev (dropWhile isWhiteSpace (rev s))"

definition trim :: "string \<Rightarrow> string" where
  "trim s = trimEnd (trimStart s)"

text \<open>
  \<open>String.prototype.toLowerCase\<close>: below 256 the code units with a different lower
  case are A to Z and the capital letters of the Latin-1 supplement (C0 to DE without
  the multiplication sign D7); each maps to the unit 32 above it.
\<close>

definition upperCaseUnits :: string where
  "upperCaseUnits = ''ABCDEFGHIJKLMNOPQRSTUVWXYZ'' @
     [CHR 0xC0, CHR 0xC1, CHR 0xC2, CHR 0xC3, CHR 0xC4, CHR 0xC5, CHR 0xC6, CHR 0xC7,
      CHR 0xC8, CHR 0xC9, CHR 0xCA, CHR 0xCB, CHR 0xCC, CHR 0xCD, CHR 0xCE, CHR 0xCF,
      CHR 0xD0, CHR 0xD1, CHR 0xD2, CHR 0xD3, CHR 0xD4, CHR 0xD5, CHR 0xD6,
      CHR 0xD8, CHR 0xD9, CHR 0xDA, CHR 0xDB, CHR 0xDC, CHR 0xDD, CHR 0xDE]"

definition lowerCaseUnits :: string where
  "lowerCaseUnits = ''abcdefghijklmnopqrstuvwxyz'' @
     [CHR 0xE0, CHR 0xE1, CHR 0xE2, CHR 0xE3, CHR 0xE4, CHR 0xE5, CHR 0xE6, CHR 0xE7,
      CHR 0xE8, CHR 0xE9, CHR 0xEA, CHR 0xEB, CHR 0xEC, CHR 0xED, CHR 0xEE, CHR 0xEF,
      CHR 0xF0, CHR 0xF1, CHR 0xF2, CHR 0xF3, CHR 0xF4, CHR 0xF5, CHR 0xF6,
      CHR 0xF8, CHR 0xF9, CHR 0xFA, CHR 0xFB, CHR 0xFC, CHR 0xFD, CHR 0xFE]"

definition toLowerUnit :: "char \<Rightarrow> char" where
  "toLowerUnit c = (case map_of (zip upperCaseUnits lowerCaseUnits) c of
                      Some l \<Rightarrow> l | None \<Rightarrow> c)"

definition toLowerCase :: "string \<Rightarrow> string" where
  "toLowerCase s = map toLowerUnit s"

section \<open>Regular expressions\<close>

text \<open>
  The validators are regular expressions used through \<open>RegExp.prototype.test\<close>. A
  regular expression is a term of \<open>rx\<close>; \<open>matches\<close> decides whether the whole string
  is matched (all patterns of the source are anchored with \<open>^\<close> and \<open>$\<close>, without the
  multiline flag), by Brzozowski derivatives. A character class is a predicate on code
  units.
\<close>

datatype rx =
    Zero
  | Eps
  | Sym "char \<Rightarrow> bool"
  | Alt rx rx
  | Seq rx rx
  | Star rx

fun nullable :: "rx \<Rightarrow> bool" where
  "nullable Zero = False"
| "nullable Eps = True"
| "nullable (Sym p) = False"
| "nullable (Alt r s) = (nullable r \<or> nullable s)"
| "nullable (Seq r s) = (nullable r \<and> nullable s)"
| "nullable (Star r) = True"

fun deriv :: "char \<Rightarrow> rx \<Rightarrow> rx" where
  "deriv c Zero = Zero"
| "deriv c Eps = Zero"
| "deriv c (Sym p) = (if p c then Eps else Zero)"
| "deriv c (Alt r s) = Alt (deriv c r) (deriv c s)"
| "deriv c (Seq r s) =
     (if nullable r then Alt (Seq (deriv c r) s) (deriv c s) else Seq (deriv c r) s)"
| "deriv c (Star r) = Seq (deriv c r) (Star r)"

fun matches :: "rx \<Rightarrow> string \<Rightarrow> bool" where
  "matches r [] = nullable r"
| "matches r (c # cs) = matches (deriv c r) cs"

text \<open>The quantifiers of the source: \<open>r?\<close>, \<open>r+\<close>, \<open>r{n}\<close>, \<open>r{0,n}\<close>, \<open>r{m,n}\<close>, \<open>r{n,}\<close>.\<close>

definition Opt :: "rx \<Rightarrow> rx" where
  "Opt r = Alt r Eps"

definition Plus :: "rx \<Rightarrow> rx" where
  "Plus r = Seq r (Star r)"

primrec Exactly :: "nat \<Rightarrow> rx \<Rightarrow> rx" where
  "Exactly 0 r = Eps"
| "Exactly (Suc n) r = Seq r (Exactly n r)"

primrec UpTo :: "nat \<Rightarrow> rx \<Rightarrow> rx" where
  "UpTo 0 r = Eps"
| "UpTo (Suc n) r = Opt (Seq r (UpTo n r))"

definition Between :: "nat \<Rightarrow> nat \<Rightarrow> rx \<Rightarrow> rx" where
  "Between m n r = Seq (Exactly m r) (UpTo (n - m) r)"

definition AtLeast :: "nat \<Rightarrow> rx \<Rightarrow> rx" where
  "AtLeast n r = Seq (Exactly n r) (Star r)"

text \<open>
  All patterns of the source carry the flag \<open>i\<close> and not \<open>u\<close>: two code units match
  when their canonical forms (the upper case, which never takes a unit from 128 up to
  one below 128) are equal. For the ASCII-only patterns used here this makes \<open>[a-z]\<close>
  match exactly the ASCII letters of either case, and a literal letter match its two
  cases; digits, the hyphen, the dot and the colon match only themselves.
\<close>

definition isLowerAZ :: "char \<Rightarrow> bool" where
  "isLowerAZ c = (c \<in> set ''abcdefghijklmnopqrstuvwxyz'')"

definition isUpperAZ :: "char \<Rightarrow> bool" where
  "isUpperAZ c = (c \<in> set ''ABCDEFGHIJKLMNOPQRSTUVWXYZ'')"

definition isDigit :: "char \<Rightarrow> bool" where
  "isDigit c = (c \<in> set ''0123456789'')"

definition cls_az :: "char \<Rightarrow> bool" where
  \<comment> \<open>\<open>[a-z]\<close> under the flag \<open>i\<close>\<close>
  "cls_az c = (isLowerAZ c \<or> isUpperAZ c)"

definition cls_az09 :: "char \<Rightarrow> bool" where
  \<comment> \<open>\<open>[a-z0-9]\<close> under the flag \<open>i\<close>\<close>
  "cls_az09 c = (cls_az c \<or> isDigit c)"

definition cls_az09hy :: "char \<Rightarrow> bool" where
  \<comment> \<open>\<open>[a-z0-9-]\<close> under the flag \<open>i\<close>\<close>
  "cls_az09hy c = (cls_az09 c \<or> c = CHR ''-'')"

definition Chr :: "char \<Rightarrow> rx" where
  \<comment> \<open>a literal character that is not a letter\<close>
  "Chr a = Sym (\<lambda>c. c = a)"

definition ChrI :: "char \<Rightarrow> rx" where
  \<comment> \<open>a literal letter under the flag \<open>i\<close>\<close>
  "ChrI a = Sym (\<lambda>c. toLowerUnit c = a \<and> cls_az c)"

primrec LitI :: "string \<Rightarrow> rx" where
  "LitI [] = Eps"
| "LitI (a # as) = Seq (ChrI a) (LitI as)"

section \<open>Domain helpers of metadata.ts\<close>

text \<open>
  \<open>normalizeDomain(input: string | null | undefined)\<close>; \<open>None\<close> stands for \<open>null\<close>
  and \<open>undefined\<close>, as argument and as result.
  \<^verbatim>\<open>t.replace(/^\s*https?:\/\//, "")\<close> removes leading white space together with the
  scheme when the scheme follows it, and changes nothing otherwise;
  \<^verbatim>\<open>.replace(/\/+$/, "")\<close> removes the first match of the pattern: the search goes
  from the left for a place where one or more slashes reach the end of the string.
\<close>

definition stripScheme :: "string \<Rightarrow> string" where
  "stripScheme t =
     (let u = dropWhile isWhiteSpace t in
      if take 7 u = ''http://'' then drop 7 u
      else if take 8 u = ''https://'' then drop 8 u
      else t)"

fun stripTrailingSlashes :: "string \<Rightarrow> string" where
  \<comment> \<open>the leftmost place from which only slashes follow up to the end\<close>
  "stripTrailingSlashes [] = []"
| "stripTrailingSlashes (c # cs) =
     (if list_all (\<lambda>x. x = CHR ''/'') (c # cs) then [] else c # stripTrailingSlashes cs)"

definition normalizeDomain :: "string option \<Rightarrow> string option" where
  "normalizeDomain input =
     (case input of
        None \<Rightarrow> None
      | Some s \<Rightarrow>
          if s = [] then None
          else let t = toLowerCase (trim s);
                   t = stripTrailingSlashes (stripScheme t)
               in if t = [] then None else Some t)"

text \<open>
  \<open>domainLooksValid\<close> of lines 27 to 32:
  \<^verbatim>\<open>re = /^(?!-)([a-z0-9]([a-z0-9-]{0,61}[a-z0-9])?\.)+[a-z]{2,}$/i\<close> and
  \<^verbatim>\<open>localhostRe = /^(localhost|localhost:\d{1,5})$/i\<close>.
  The negative lookahead \<open>(?!-)\<close> stands at the start of the input, so it is the test
  that the first character is not a hyphen.
\<close>

definition notHyphenFirst :: "string \<Rightarrow> bool" where
  "notHyphenFirst val = (case val of [] \<Rightarrow> True | c # _ \<Rightarrow> c \<noteq> CHR ''-'')"

definition re_label :: rx where
  "re_label = Seq (Sym cls_az09) (Opt (Seq (UpTo 61 (Sym cls_az09hy)) (Sym cls_az09)))"

definition re :: rx where
  "re = Seq (Plus (Seq re_label (Chr CHR ''.''))) (AtLeast 2 (Sym cls_az))"

definition localhostRe :: rx where
  "localhostRe = Alt (LitI ''localhost'')
                     (Seq (LitI ''localhost'') (Seq (Chr CHR '':'') (Between 1 5 (Sym isDigit))))"

definition domainLooksValid :: "string \<Rightarrow> bool" where
  "domainLooksValid val =
     ((notHyphenFirst val \<and> matches re val) \<or> matches localhostRe val)"

text \<open>
  The file holds a second copy of the module (lines 274 to 574) that differs from the
  first in the two patterns of \<open>domainLooksValid\<close> (lines 303 to 308):
  \<^verbatim>\<open>re = /^(?!-)([a-z0-9-]{1,63}\.)+[a-z]{2,}$/i\<close> and
  \<^verbatim>\<open>localhostRe = /^(localhost|localhost:\d{2,5})$/i\<close>,
  and in building every prompt in place instead of through \<open>prompts\<close>. The
  development follows the first copy; the patterns of the second are kept here for
  comparison.
\<close>

definition re_copy2 :: rx where
  "re_copy2 = Seq (Plus (Seq (Between 1 63 (Sym cls_az09hy)) (Chr CHR ''.'')))
                  (AtLeast 2 (Sym cls_az))"

definition localhostRe_copy2 :: rx where
  "localhostRe_copy2 =
     Alt (LitI ''localhost'')
         (Seq (LitI ''localhost'') (Seq (Chr CHR '':'') (Between 2 5 (Sym isDigit))))"

definition domainLooksValid_copy2 :: "string \<Rightarrow> bool" where
  "domainLooksValid_copy2 val =
     ((notHyphenFirst val \<and> matches re_copy2 val) \<or> matches localhostRe_copy2 val)"

section \<open>The configuration\<close>

text \<open>
  The types of the source are unions of string literals, and the source fills the
  fields through unchecked casts (\<open>result.network as Network\<close>). The one string
  outside a union that a cast lets through is \<open>'canceled'\<close>, which \<open>p.group\<close> stores
  for a cancelled prompt: it is the last constructor of each type. For
  \<open>integrations\<close> the value is then that string instead of an array.
\<close>

datatype Network = Mainnet | Testnet | CanceledNetwork

datatype DeploymentType = Vps | Local | CanceledDeployment

datatype FrontendHosting = SameVps | Vercel | Skip | CanceledHosting

datatype Integration = Stripe | Auth

datatype IntegrationsValue = Items "Integration list" | CanceledText

text \<open>\<open>domain?: string | null\<close>: \<open>None\<close> is the absent (or \<open>null\<close>) domain.\<close>

record ProjectMetadata =
  projectName :: string
  network :: Network
  deploymentType :: DeploymentType
  frontendHosting :: FrontendHosting
  domain :: "string option"
  integrations :: IntegrationsValue
  createdAtIso :: string

text \<open>
  \<open>normalizeFrontendHosting\<close> mutates its argument; the model returns the
  configuration after the call.
\<close>

definition normalizeFrontendHosting :: "ProjectMetadata \<Rightarrow> ProjectMetadata" where
  "normalizeFrontendHosting meta =
     (if deploymentType meta = Local \<and> frontendHosting meta = SameVps
      then meta\<lparr>frontendHosting := Vercel\<rparr>
      else meta)"

section \<open>The validators of the two text prompts\<close>

text \<open>
  A \<open>validate\<close> callback returns a message (the input is rejected) or nothing (the
  input is accepted): \<open>Some msg\<close> or \<open>None\<close>. Its argument may be \<open>undefined\<close>
  (\<open>None\<close>), which the source guards with \<open>v?.trim()\<close> and \<open>!input\<close>.
\<close>

definition projectName_validate :: "string option \<Rightarrow> string option" where
  "projectName_validate v =
     (case v of
        None \<Rightarrow> Some ''Please enter a project name.''
      | Some s \<Rightarrow>
          if trim s = [] then Some ''Please enter a project name.''
          else if length s > 64 then Some ''Keep it under 64 characters.''
          else None)"

definition domain_validate :: "string option \<Rightarrow> string option" where
  "domain_validate v =
     (case normalizeDomain v of
        None \<Rightarrow> None
      | Some t \<Rightarrow>
          if \<not> domainLooksValid t
          then Some ''Please enter a valid domain (e.g., api.example.com) or leave blank.''
          else None)"

text \<open>
  The domain prompt of the second copy (lines 391 to 401) has the same callback over
  the second copy's \<open>domainLooksValid\<close>; its \<open>normalizeDomain\<close> (lines 295 to
  301) is the first copy's, line for line.
\<close>

definition domain_validate_copy2 :: "string option \<Rightarrow> string option" where
  "domain_validate_copy2 v =
     (case normalizeDomain v of
        None \<Rightarrow> None
      | Some t \<Rightarrow>
          if \<not> domainLooksValid_copy2 t
          then Some ''Please enter a valid domain (e.g., api.example.com) or leave blank.''
          else None)"

section \<open>The operator and the prompt library\<close>

text \<open>
  What the operator does at the terminal is a list of responses, one for each time a
  prompt waits: cancelling the prompt, pressing Enter on the prompt as it was opened
  (\<open>RAccept\<close>: the initial value), submitting a text, or choosing among the options of
  a selection.
\<close>

datatype Choice = Confirm | Edit | StartOver | CancelSetup

datatype Field =
  FProjectName | FNetwork | FDeploymentType | FFrontendHosting | FDomain | FIntegrations

datatype response =
    RCancel
  | RAccept
  | RText string
  | RNetwork Network
  | RDeployment DeploymentType
  | RHosting FrontendHosting
  | RIntegrations "Integration list"
  | RChoice Choice
  | RField Field

text \<open>
  The state of the terminal: the responses still to come and the configurations shown
  so far by \<open>p.note(formatSummary(meta), "Review configuration")\<close>.
\<close>

record world =
  input :: "response list"
  displayed :: "ProjectMetadata list"

text \<open>A prompt resolves to the library's cancel symbol (\<open>isCancel\<close>) or to a value.\<close>

datatype 'a answer = Cancel | Value 'a

text \<open>
  Modelled from the spec: the prompts \<open>p.text\<close>, \<open>p.select\<close> and \<open>p.multiselect\<close>
  of the library \<open>@clack/prompts\<close>, whose code is not part of the sources.
  Section 4.1: a rejected input re-prompts the same field until the input is valid or
  the prompt is cancelled. A selection yields one of the options it offers. A prompt
  function returns \<open>None\<close> when the responses end before the prompt is resolved, or
  when the next response is one the prompt cannot receive (a choice that is not among
  its options).
\<close>

fun p_text_loop ::
  "(string option \<Rightarrow> string option) \<Rightarrow> string option \<Rightarrow> world \<Rightarrow> response list
     \<Rightarrow> (string answer \<times> world) option" where
  "p_text_loop validate initialValue w [] = None"
| "p_text_loop validate initialValue w (RCancel # rs) = Some (Cancel, w\<lparr>input := rs\<rparr>)"
| "p_text_loop validate initialValue w (RText s # rs) =
     (case validate (Some s) of
        None \<Rightarrow> Some (Value s, w\<lparr>input := rs\<rparr>)
      | Some msg \<Rightarrow> p_text_loop validate initialValue w rs)"
| "p_text_loop validate initialValue w (RAccept # rs) =
     (let s = (case initialValue of None \<Rightarrow> [] | Some i \<Rightarrow> i) in
      case validate (Some s) of
        None \<Rightarrow> Some (Value s, w\<lparr>input := rs\<rparr>)
      | Some msg \<Rightarrow> p_text_loop validate initialValue w rs)"
| "p_text_loop validate initialValue w (_ # rs) = None"

definition p_text ::
  "(string option \<Rightarrow> string option) \<Rightarrow> string option \<Rightarrow> world
     \<Rightarrow> (string answer \<times> world) option" where
  "p_text validate initialValue w = p_text_loop validate initialValue w (input w)"

definition p_select ::
  "(response \<Rightarrow> 'a option) \<Rightarrow> 'a list \<Rightarrow> 'a option \<Rightarrow> world \<Rightarrow> ('a answer \<times> world) option" where
  "p_select pick options initialValue w =
     (case input w of
        [] \<Rightarrow> None
      | r # rs \<Rightarrow>
          if r = RCancel then Some (Cancel, w\<lparr>input := rs\<rparr>)
          else if r = RAccept then
            (case initialValue of
               Some i \<Rightarrow> if i \<in> set options then Some (Value i, w\<lparr>input := rs\<rparr>)
                         else (case options of [] \<Rightarrow> None
                               | v # _ \<Rightarrow> Some (Value v, w\<lparr>input := rs\<rparr>))
             | None \<Rightarrow> (case options of [] \<Rightarrow> None
                         | v # _ \<Rightarrow> Some (Value v, w\<lparr>input := rs\<rparr>)))
          else
            (case pick r of
               Some v \<Rightarrow> if v \<in> set options then Some (Value v, w\<lparr>input := rs\<rparr>) else None
             | None \<Rightarrow> None))"

definition p_multiselect ::
  "Integration list \<Rightarrow> IntegrationsValue option \<Rightarrow> world
     \<Rightarrow> (IntegrationsValue option answer \<times> world) option" where
  "p_multiselect options initialValues w =
     (case input w of
        [] \<Rightarrow> None
      | RCancel # rs \<Rightarrow> Some (Cancel, w\<lparr>input := rs\<rparr>)
      | RAccept # rs \<Rightarrow> Some (Value initialValues, w\<lparr>input := rs\<rparr>)
      | RIntegrations vs # rs \<Rightarrow>
          if set vs \<subseteq> set options \<and> distinct vs
          then Some (Value (Some (Items vs)), w\<lparr>input := rs\<rparr>) else None
      | _ # rs \<Rightarrow> None)"

text \<open>
  \<open>p.group\<close> of the library (\<open>@clack/prompts\<close>, not part of the sources) runs its
  prompts in order and resolves to the object of their results. When a prompt is
  cancelled and an \<open>onCancel\<close> is given, the group stores the string \<open>'canceled'\<close>
  under the name of the prompt, calls \<open>onCancel\<close> and goes on with the next prompt;
  it never resolves to the cancel symbol. The \<open>onCancel\<close> of line 166 is
  \<open>() => p.cancel("Setup cancelled.")\<close>, which prints the message and returns; it
  does not end the process (at lines 754 and 755 \<open>process.exit(1)\<close> follows
  \<open>p.cancel\<close>). \<open>p_group_step\<close> is one step of the group: \<open>canceled\<close> is the
  stored string at the type of the prompt.
\<close>

definition p_group_step ::
  "('a answer \<times> world) option \<Rightarrow> 'a \<Rightarrow> ('a \<Rightarrow> world \<Rightarrow> 'b option) \<Rightarrow> 'b option" where
  "p_group_step r canceled k =
     (case r of
        None \<Rightarrow> None
      | Some (Cancel, w) \<Rightarrow> k canceled w
      | Some (Value a, w) \<Rightarrow> k a w)"

section \<open>The prompt factories\<close>

text \<open>
  The object \<open>prompts\<close> of lines 63 to 147. \<open>initialValue ?? d\<close> is the given
  initial value, or \<open>d\<close> when none is given. For the domain prompt the initial value
  decides the wording of the message only, which is not modelled.
\<close>

fun pickNetwork :: "response \<Rightarrow> Network option" where
  "pickNetwork (RNetwork v) = Some v"
| "pickNetwork _ = None"

fun pickDeployment :: "response \<Rightarrow> DeploymentType option" where
  "pickDeployment (RDeployment v) = Some v"
| "pickDeployment _ = None"

fun pickHosting :: "response \<Rightarrow> FrontendHosting option" where
  "pickHosting (RHosting v) = Some v"
| "pickHosting _ = None"

fun pickChoice :: "response \<Rightarrow> Choice option" where
  "pickChoice (RChoice v) = Some v"
| "pickChoice _ = None"

fun pickField :: "response \<Rightarrow> Field option" where
  "pickField (RField v) = Some v"
| "pickField _ = None"

definition orElse :: "'a option \<Rightarrow> 'a \<Rightarrow> 'a" where
  \<comment> \<open>the operator \<open>??\<close>\<close>
  "orElse v d = (case v of None \<Rightarrow> d | Some x \<Rightarrow> x)"

definition prompts_projectName ::
  "string option \<Rightarrow> world \<Rightarrow> (string answer \<times> world) option" where
  "prompts_projectName initialValue = p_text projectName_validate initialValue"

definition prompts_network ::
  "Network option \<Rightarrow> world \<Rightarrow> (Network answer \<times> world) option" where
  "prompts_network initialValue =
     p_select pickNetwork [Mainnet, Testnet] (Some (orElse initialValue Testnet))"

definition prompts_deploymentType ::
  "DeploymentType option \<Rightarrow> world \<Rightarrow> (DeploymentType answer \<times> world) option" where
  "prompts_deploymentType initialValue =
     p_select pickDeployment [Vps, Local] (Some (orElse initialValue Vps))"

definition prompts_frontendHosting ::
  "DeploymentType \<Rightarrow> FrontendHosting option \<Rightarrow> world
     \<Rightarrow> (FrontendHosting answer \<times> world) option" where
  "prompts_frontendHosting dt initialValue =
     p_select pickHosting
       (if dt = Local then [Vercel, Skip] else [SameVps, Vercel, Skip])
       (Some (orElse initialValue (if dt = Local then Vercel else SameVps)))"

definition prompts_domain ::
  "string option \<Rightarrow> world \<Rightarrow> (string answer \<times> world) option" where
  "prompts_domain initialValue = p_text domain_validate (Some (orElse initialValue []))"

definition prompts_integrations ::
  "IntegrationsValue option \<Rightarrow> world
     \<Rightarrow> (IntegrationsValue option answer \<times> world) option" where
  "prompts_integrations initialValues = p_multiselect [Stripe, Auth] initialValues"

section \<open>askAll\<close>

text \<open>The object that \<open>p.group\<close> resolves to: one entry for each prompt.\<close>

record groupResult =
  r_projectName :: string
  r_network :: Network
  r_deploymentType :: DeploymentType
  r_frontendHosting :: FrontendHosting
  r_domain :: string
  r_integrations :: "IntegrationsValue option"

definition askAll_group :: "world \<Rightarrow> (groupResult answer \<times> world) option" where
  "askAll_group w =
     p_group_step (prompts_projectName None w) ''canceled'' (\<lambda>pn w.
     p_group_step (prompts_network None w) CanceledNetwork (\<lambda>nw w.
     p_group_step (prompts_deploymentType None w) CanceledDeployment (\<lambda>dt w.
     p_group_step (prompts_frontendHosting dt None w) CanceledHosting (\<lambda>fh w.
     p_group_step (prompts_domain None w) ''canceled'' (\<lambda>dm w.
     p_group_step (prompts_integrations None w) (Some CanceledText) (\<lambda>ig w.
       Some (Value \<lparr>r_projectName = pn, r_network = nw, r_deploymentType = dt,
                    r_frontendHosting = fh, r_domain = dm, r_integrations = ig\<rparr>, w)))))))"

text \<open>
  \<open>askAll\<close> of lines 150 to 183; \<open>now\<close> is what \<open>new Date().toISOString()\<close> gives
  when the pass completes. The result \<open>None\<close> inside is the \<open>null\<close> of the source,
  returned when the result of the group is the cancel symbol (line 169), which the
  group above never resolves to.
\<close>

definition askAll_meta :: "string \<Rightarrow> groupResult \<Rightarrow> ProjectMetadata" where
  \<comment> \<open>lines 171 to 182: the configuration built from the answers, then normalized\<close>
  "askAll_meta now result =
     normalizeFrontendHosting
       \<lparr>projectName = trim (r_projectName result),
        network = r_network result,
        deploymentType = r_deploymentType result,
        frontendHosting = r_frontendHosting result,
        domain = normalizeDomain (Some (r_domain result)),
        integrations = orElse (r_integrations result) (Items []),
        createdAtIso = now\<rparr>"

definition askAll :: "string \<Rightarrow> world \<Rightarrow> (ProjectMetadata option \<times> world) option" where
  "askAll now w =
     (case askAll_group w of
        None \<Rightarrow> None
      | Some (Cancel, w') \<Rightarrow> Some (None, w')
      | Some (Value result, w') \<Rightarrow> Some (Some (askAll_meta now result), w'))"

section \<open>editLoop\<close>

text \<open>
  The branch of \<open>editLoop\<close> for one chosen field (lines 220 to 246): the field's
  prompt, seeded with the current value, and the assignment when the prompt was not
  cancelled.
\<close>

fun editField ::
  "ProjectMetadata \<Rightarrow> Field \<Rightarrow> world \<Rightarrow> (ProjectMetadata \<times> world) option" where
  "editField meta FProjectName w =
     (case prompts_projectName (Some (projectName meta)) w of
        None \<Rightarrow> None
      | Some (Cancel, w') \<Rightarrow> Some (meta, w')
      | Some (Value v, w') \<Rightarrow> Some (meta\<lparr>projectName := trim v\<rparr>, w'))"
| "editField meta FNetwork w =
     (case prompts_network (Some (network meta)) w of
        None \<Rightarrow> None
      | Some (Cancel, w') \<Rightarrow> Some (meta, w')
      | Some (Value v, w') \<Rightarrow> Some (meta\<lparr>network := v\<rparr>, w'))"
| "editField meta FDeploymentType w =
     (case prompts_deploymentType (Some (deploymentType meta)) w of
        None \<Rightarrow> None
      | Some (Cancel, w') \<Rightarrow> Some (meta, w')
      | Some (Value v, w') \<Rightarrow>
          Some (normalizeFrontendHosting (meta\<lparr>deploymentType := v\<rparr>), w'))"
| "editField meta FFrontendHosting w =
     (case prompts_frontendHosting (deploymentType meta)
             (Some (if deploymentType meta = Local \<and> frontendHosting meta = SameVps
                    then Vercel else frontendHosting meta)) w of
        None \<Rightarrow> None
      | Some (Cancel, w') \<Rightarrow> Some (meta, w')
      | Some (Value v, w') \<Rightarrow> Some (meta\<lparr>frontendHosting := v\<rparr>, w'))"
| "editField meta FDomain w =
     (case prompts_domain (domain meta) w of
        None \<Rightarrow> None
      | Some (Cancel, w') \<Rightarrow> Some (meta, w')
      | Some (Value v, w') \<Rightarrow> Some (meta\<lparr>domain := normalizeDomain (Some v)\<rparr>, w'))"
| "editField meta FIntegrations w =
     (case prompts_integrations (Some (integrations meta)) w of
        None \<Rightarrow> None
      | Some (Cancel, w') \<Rightarrow> Some (meta, w')
      | Some (Value v, w') \<Rightarrow> Some (meta\<lparr>integrations := orElse v (Items [])\<rparr>, w'))"

text \<open>Every resolved prompt has consumed at least one response.\<close>

lemma p_text_loop_input:
  "p_text_loop validate i w rs = Some (a, w') \<Longrightarrow> length (input w') < length rs"
proof (induction rs)
  case Nil
  then show ?case by simp
next
  case (Cons r rs)
  show ?case
  proof (cases r)
    case (RText s)
    with Cons show ?thesis by (cases "validate (Some s)") auto
  next
    case RAccept
    with Cons show ?thesis
      by (cases "validate (Some (case i of None \<Rightarrow> [] | Some x \<Rightarrow> x))") (auto simp: Let_def)
  qed (use Cons in auto)
qed

lemma p_text_input:
  "p_text validate i w = Some (a, w') \<Longrightarrow> length (input w') < length (input w)"
  unfolding p_text_def by (rule p_text_loop_input)

lemma p_select_input:
  "p_select pick opts i w = Some (a, w') \<Longrightarrow> length (input w') < length (input w)"
  unfolding p_select_def
  by (auto split: list.splits if_splits option.splits)

lemma p_multiselect_input:
  "p_multiselect opts i w = Some (a, w') \<Longrightarrow> length (input w') < length (input w)"
  unfolding p_multiselect_def
  by (auto split: list.splits if_splits response.splits)

lemma editField_input:
  "editField meta field w = Some (meta', w') \<Longrightarrow> length (input w') < length (input w)"
  by (cases field)
     (auto simp: prompts_projectName_def prompts_network_def prompts_deploymentType_def
                 prompts_frontendHosting_def prompts_domain_def prompts_integrations_def
           split: option.splits answer.splits
           dest: p_text_input p_select_input p_multiselect_input)

text \<open>
  \<open>formatSummary\<close> of lines 34 to 53. The text of the summary is not modelled: the
  summary is the configuration it is made from. The last line of the summary reads
  \<open>meta.integrations.length\<close> and, when that is not 0, calls
  \<open>meta.integrations.join\<close>. An array has both; the string \<open>'canceled'\<close> has the
  length 8 and no \<open>join\<close>, so the call throws a TypeError: the result \<open>None\<close>.
  \<open>editLoop\<close> calls \<open>formatSummary\<close> before any prompt of a round, so the prompt of
  the integrations is never seeded with that string.
\<close>

definition formatSummary :: "ProjectMetadata \<Rightarrow> ProjectMetadata option" where
  "formatSummary meta =
     (case integrations meta of Items xs \<Rightarrow> Some meta | CanceledText \<Rightarrow> None)"

text \<open>
  \<open>editLoop\<close> of lines 185 to 248. The loop \<open>while (true)\<close> is the recursion; every
  round consumes a response, so the recursion ends with the responses. The source
  mutates \<open>meta\<close> in place and returns one of three strings; the model returns the
  string and the configuration as the loop left it. The result \<open>None\<close> is a call
  that does not return: \<open>formatSummary\<close> threw, or the responses ended while a
  prompt waited.
\<close>

datatype Next = NConfirm | NStartOver | NCancel

function editLoop ::
  "ProjectMetadata \<Rightarrow> world \<Rightarrow> (Next \<times> ProjectMetadata \<times> world) option" where
  "editLoop meta w =
     (if formatSummary meta = None then None
      else
       (case p_select pickChoice [Confirm, Edit, StartOver, CancelSetup] (Some Confirm)
               (w\<lparr>displayed := displayed w @ [meta]\<rparr>) of
          None \<Rightarrow> None
        | Some (Cancel, w1) \<Rightarrow> Some (NCancel, meta, w1)
        | Some (Value choice, w1) \<Rightarrow>
            if choice = Confirm then Some (NConfirm, meta, w1)
            else if choice = StartOver then Some (NStartOver, meta, w1)
            else if choice = CancelSetup then Some (NCancel, meta, w1)
            else
              (case p_select pickField
                      [FProjectName, FNetwork, FDeploymentType, FFrontendHosting, FDomain,
                       FIntegrations] None w1 of
                 None \<Rightarrow> None
               | Some (Cancel, w2) \<Rightarrow> editLoop meta w2
               | Some (Value field, w2) \<Rightarrow>
                   (case editField meta field w2 of
                      None \<Rightarrow> None
                    | Some (meta', w3) \<Rightarrow> editLoop meta' w3))))"
  by pat_completeness auto
termination
  by (relation "measure (\<lambda>(meta, w). length (input w))")
     (auto dest!: p_select_input editField_input)

declare editLoop.simps [simp del]

lemma askAll_group_input:
  "askAll_group w = Some (a, w') \<Longrightarrow> length (input w') < length (input w)"
  unfolding askAll_group_def p_group_step_def
  prompts_projectName_def prompts_network_def prompts_deploymentType_def
  prompts_frontendHosting_def prompts_domain_def prompts_integrations_def
  by (auto split: option.splits answer.splits
           dest!: p_text_input p_select_input p_multiselect_input)

lemma askAll_input:
  "askAll now w = Some (r, w') \<Longrightarrow> length (input w') < length (input w)"
  unfolding askAll_def
  by (auto split: option.splits answer.splits dest: askAll_group_input)

lemma editLoop_throws: "formatSummary meta = None \<Longrightarrow> editLoop meta w = None"
  by (subst editLoop.simps) simp

lemma editLoop_unfold:
  "formatSummary meta \<noteq> None \<Longrightarrow>
   editLoop meta w =
     (case p_select pickChoice [Confirm, Edit, StartOver, CancelSetup] (Some Confirm)
             (w\<lparr>displayed := displayed w @ [meta]\<rparr>) of
        None \<Rightarrow> None
      | Some (Cancel, w1) \<Rightarrow> Some (NCancel, meta, w1)
      | Some (Value choice, w1) \<Rightarrow>
          if choice = Confirm then Some (NConfirm, meta, w1)
          else if choice = StartOver then Some (NStartOver, meta, w1)
          else if choice = CancelSetup then Some (NCancel, meta, w1)
          else
            (case p_select pickField
                    [FProjectName, FNetwork, FDeploymentType, FFrontendHosting, FDomain,
                     FIntegrations] None w1 of
               None \<Rightarrow> None
             | Some (Cancel, w2) \<Rightarrow> editLoop meta w2
             | Some (Value field, w2) \<Rightarrow>
                 (case editField meta field w2 of
                    None \<Rightarrow> None
                  | Some (meta', w3) \<Rightarrow> editLoop meta' w3)))"
  by (subst editLoop.simps) auto

text \<open>
  The loop rule of \<open>editLoop\<close>: a property of the configuration and the terminal that
  showing the summary, the two selections and the edit of a field preserve holds when
  the loop returns.
\<close>

lemma editLoop_invariant:
  assumes run: "editLoop meta w = Some (nx, meta', w')"
    and init: "I meta w"
    and shown: "\<And>m v. I m v \<Longrightarrow> I m (v\<lparr>displayed := displayed v @ [m]\<rparr>)"
    and choice: "\<And>m v a v1 i.
       I m v \<Longrightarrow> p_select pickChoice [Confirm, Edit, StartOver, CancelSetup] i v = Some (a, v1) \<Longrightarrow> I m v1"
    and field: "\<And>m v a v1 i.
       I m v \<Longrightarrow> p_select pickField [FProjectName, FNetwork, FDeploymentType, FFrontendHosting, FDomain,
                     FIntegrations] i v = Some (a, v1) \<Longrightarrow> I m v1"
    and edit: "\<And>m v f m1 v1. I m v \<Longrightarrow> editField m f v = Some (m1, v1) \<Longrightarrow> I m1 v1"
  shows "I meta' w'"
  using run init
proof (induction meta w rule: editLoop.induct)
  case (1 meta w)
  let ?w0 = "w\<lparr>displayed := displayed w @ [meta]\<rparr>"
  have nt: "formatSummary meta \<noteq> None"
    using "1.prems"(1) editLoop_throws[of meta w] by (cases "formatSummary meta") auto
  note body = editLoop_unfold[OF nt]
  have I0: "I meta ?w0" using "1.prems"(2) by (rule shown)
  obtain a w1 where sel: "p_select pickChoice [Confirm, Edit, StartOver, CancelSetup] (Some Confirm) ?w0 = Some (a, w1)"
    using "1.prems"(1) by (subst (asm) body) (auto split: option.splits)
  have I1: "I meta w1" using I0 sel by (rule choice)
  show ?case
  proof (cases "a = Value Edit")
    case False
    with sel "1.prems"(1) have "meta' = meta \<and> w' = w1"
      by (subst (asm) body) (auto split: answer.splits if_splits intro: Choice.exhaust)
    with I1 show ?thesis by simp
  next
    case True
    obtain b w2 where fsel: "p_select pickField [FProjectName, FNetwork, FDeploymentType, FFrontendHosting, FDomain,
                     FIntegrations] None w1 = Some (b, w2)"
      using "1.prems"(1) sel True by (subst (asm) body) (auto split: option.splits)
    have I2: "I meta w2" using I1 fsel by (rule field)
    show ?thesis
    proof (cases b)
      case Cancel
      with sel True fsel "1.prems"(1) have "editLoop meta w2 = Some (nx, meta', w')"
        by (subst (asm) body) simp
      with "1.IH"(1)[OF nt sel refl] True fsel Cancel I2 show ?thesis by simp
    next
      case (Value f)
      obtain m3 w3 where ed: "editField meta f w2 = Some (m3, w3)"
        and rest: "editLoop m3 w3 = Some (nx, meta', w')"
        using sel True fsel Value "1.prems"(1)
        by (subst (asm) body) (auto split: option.splits)
      have I3: "I m3 w3" using I2 ed by (rule edit)
      from "1.IH"(2)[OF nt sel refl] True fsel Value ed rest I3 show ?thesis by simp
    qed
  qed
qed

lemma editLoop_input:
  assumes "editLoop meta w = Some (nx, meta', w')"
  shows "length (input w') \<le> length (input w)"
  using assms
proof (rule editLoop_invariant[where I = "\<lambda>m v. length (input v) \<le> length (input w)"])
  fix m :: ProjectMetadata and v v1 :: world and f m1
  assume "length (input v) \<le> length (input w)" "editField m f v = Some (m1, v1)"
  then show "length (input v1) \<le> length (input w)"
    using editField_input[of m f v m1 v1] by simp
qed (auto dest!: p_select_input)

section \<open>collectProjectMetadata\<close>

text \<open>
  \<open>collectProjectMetadata\<close> of lines 251 to 273. \<open>clock n\<close> is the time that pass
  number \<open>n\<close> reads when it completes. The result \<open>None\<close> inside is \<open>null\<close>.
\<close>

function collectProjectMetadata ::
  "(nat \<Rightarrow> string) \<Rightarrow> nat \<Rightarrow> world \<Rightarrow> (ProjectMetadata option \<times> world) option" where
  "collectProjectMetadata clock n w =
     (case askAll (clock n) w of
        None \<Rightarrow> None
      | Some (None, w1) \<Rightarrow> Some (None, w1)
      | Some (Some meta, w1) \<Rightarrow>
          (case editLoop meta w1 of
             None \<Rightarrow> None
           | Some (next, meta', w2) \<Rightarrow>
               if next = NConfirm then Some (Some meta', w2)
               else if next = NCancel then Some (None, w2)
               else collectProjectMetadata clock (Suc n) w2))"
  by pat_completeness auto
termination
  by (relation "measure (\<lambda>(clock, n, w). length (input w))")
     (auto dest!: askAll_input editLoop_input)

declare collectProjectMetadata.simps [simp del]

section \<open>The matcher decides the language of a regular expression\<close>

text \<open>
  The language of a regular expression, as the standard of what \<open>test\<close> accepts on an
  anchored pattern; \<open>matches\<close> is proved to decide it.
\<close>

inductive_set star :: "string set \<Rightarrow> string set" for A :: "string set" where
  star_empty: "[] \<in> star A"
| star_step: "u \<in> A \<Longrightarrow> v \<in> star A \<Longrightarrow> u @ v \<in> star A"

fun lang :: "rx \<Rightarrow> string set" where
  "lang Zero = {}"
| "lang Eps = {[]}"
| "lang (Sym p) = {[c] | c. p c}"
| "lang (Alt r s) = lang r \<union> lang s"
| "lang (Seq r s) = {u @ v | u v. u \<in> lang r \<and> v \<in> lang s}"
| "lang (Star r) = star (lang r)"

lemma nullable_lang: "nullable r \<longleftrightarrow> [] \<in> lang r"
  by (induction r) (auto intro: star.star_empty)

lemma lang_SeqI: "u \<in> lang r \<Longrightarrow> v \<in> lang s \<Longrightarrow> u @ v \<in> lang (Seq r s)"
  by auto

lemma deriv_sound: "s \<in> lang (deriv c r) \<Longrightarrow> c # s \<in> lang r"
proof (induction r arbitrary: s)
  case (Seq r1 r2)
  show ?case
  proof (cases "nullable r1")
    case True
    with Seq.prems consider
      (left) u v where "s = u @ v" "u \<in> lang (deriv c r1)" "v \<in> lang r2"
      | (right) "s \<in> lang (deriv c r2)"
      by auto
    then show ?thesis
    proof cases
      case left
      then have "c # u \<in> lang r1" using Seq.IH(1) by blast
      with left show ?thesis using lang_SeqI[of "c # u" r1 v r2] by simp
    next
      case right
      then have "c # s \<in> lang r2" using Seq.IH(2) by blast
      moreover have "[] \<in> lang r1" using True by (simp add: nullable_lang)
      ultimately show ?thesis using lang_SeqI[of "[]" r1 "c # s" r2] by simp
    qed
  next
    case False
    with Seq.prems obtain u v where "s = u @ v" "u \<in> lang (deriv c r1)" "v \<in> lang r2"
      by auto
    moreover then have "c # u \<in> lang r1" using Seq.IH(1) by blast
    ultimately show ?thesis using lang_SeqI[of "c # u" r1 v r2] by simp
  qed
next
  case (Star r)
  then obtain u v where "s = u @ v" "u \<in> lang (deriv c r)" "v \<in> star (lang r)"
    by auto
  moreover then have "c # u \<in> lang r" using Star.IH by blast
  ultimately show ?case using star.star_step[of "c # u" "lang r" v] by simp
qed (auto split: if_splits)

lemma star_cons:
  "w \<in> star A \<Longrightarrow> w = c # s \<Longrightarrow> \<exists>u v. s = u @ v \<and> c # u \<in> A \<and> v \<in> star A"
proof (induction rule: star.induct)
  case star_empty
  then show ?case by simp
next
  case (star_step u v)
  show ?case
  proof (cases u)
    case Nil
    with star_step show ?thesis by simp
  next
    case (Cons a u')
    with star_step.prems star_step.hyps show ?thesis by auto
  qed
qed

lemma deriv_complete: "c # s \<in> lang r \<Longrightarrow> s \<in> lang (deriv c r)"
proof (induction r arbitrary: s)
  case (Seq r1 r2)
  then obtain u v where uv: "c # s = u @ v" "u \<in> lang r1" "v \<in> lang r2" by auto
  show ?case
  proof (cases u)
    case Nil
    with uv have "nullable r1" "s \<in> lang (deriv c r2)"
      using Seq.IH(2) by (auto simp: nullable_lang)
    then show ?thesis by simp
  next
    case (Cons a u')
    with uv have "s = u' @ v" "u' \<in> lang (deriv c r1)" using Seq.IH(1) by auto
    with uv show ?thesis by auto
  qed
next
  case (Star r)
  then have "c # s \<in> star (lang r)" by simp
  from star_cons[OF this refl] obtain u v where
    "s = u @ v" "c # u \<in> lang r" "v \<in> star (lang r)" by blast
  with Star.IH show ?case by auto
qed auto

lemma matches_lang: "matches r s \<longleftrightarrow> s \<in> lang r"
proof (induction s arbitrary: r)
  case Nil
  then show ?case by (simp add: nullable_lang)
next
  case (Cons c s)
  then show ?case using deriv_sound deriv_complete by auto
qed


section \<open>The domain grammar in the words of the specification\<close>

text \<open>
  Section 4.1 and invariant I3 of the specification: dot-separated labels, each
  alphanumeric possibly hyphenated but not hyphen-leading, top label letters of length
  at least 2; or the literal \<open>localhost\<close> optionally followed by a colon and 1 to 5
  digits; case-insensitively. These definitions follow the specification, not the
  source; \<open>splitOn\<close> cuts a string at every separator.
\<close>

fun splitOn :: "char \<Rightarrow> string \<Rightarrow> string list" where
  "splitOn sep [] = [[]]"
| "splitOn sep (c # cs) =
     (if c = sep then [] # splitOn sep cs
      else (case splitOn sep cs of [] \<Rightarrow> [[c]] | x # xs \<Rightarrow> (c # x) # xs))"

definition spec_label :: "string \<Rightarrow> bool" where
  "spec_label l =
     (l \<noteq> [] \<and> list_all (\<lambda>c. isLowerAZ c \<or> isUpperAZ c \<or> isDigit c \<or> c = CHR ''-'') l
      \<and> hd l \<noteq> CHR ''-'')"

definition spec_topLabel :: "string \<Rightarrow> bool" where
  "spec_topLabel t = (2 \<le> length t \<and> list_all (\<lambda>c. isLowerAZ c \<or> isUpperAZ c) t)"

definition spec_fqdn :: "string \<Rightarrow> bool" where
  "spec_fqdn d =
     (let ls = splitOn CHR ''.'' d in
      2 \<le> length ls \<and> list_all spec_label (butlast ls) \<and> spec_topLabel (last ls))"

definition spec_localhost :: "string \<Rightarrow> bool" where
  "spec_localhost d =
     (toLowerCase (take 9 d) = ''localhost'' \<and>
      (case drop 9 d of
         [] \<Rightarrow> True
       | c # port \<Rightarrow> c = CHR '':'' \<and> 1 \<le> length port \<and> length port \<le> 5 \<and> list_all isDigit port))"

definition spec_domainGrammar :: "string \<Rightarrow> bool" where
  "spec_domainGrammar d = (spec_fqdn d \<or> spec_localhost d)"

lemma splitOn_nonempty: "splitOn sep s \<noteq> []"
  by (induction s) (auto split: list.splits)

lemma splitOn_no_sep: "sep \<notin> set s \<Longrightarrow> splitOn sep s = [s]"
  by (induction s) auto

lemma splitOn_append:
  "sep \<notin> set l \<Longrightarrow> splitOn sep (l @ sep # rest) = l # splitOn sep rest"
  by (induction l) auto

lemma lang_UpTo_Sym: "w \<in> lang (UpTo n (Sym p)) \<Longrightarrow> list_all p w \<and> length w \<le> n"
  by (induction n arbitrary: w) (auto simp: Opt_def)

lemma lang_Exactly_Sym: "w \<in> lang (Exactly n (Sym p)) \<Longrightarrow> list_all p w \<and> length w = n"
  by (induction n arbitrary: w) auto

lemma star_Sym: "w \<in> star (lang (Sym p)) \<Longrightarrow> list_all p w"
  by (induction rule: star.induct) auto

lemma lang_re_label:
  assumes "l \<in> lang re_label"
  shows "l \<noteq> [] \<and> cls_az09 (hd l) \<and> list_all cls_az09hy l"
proof -
  from assms obtain c t where l: "l = c # t" and c: "cls_az09 c"
    and t: "t \<in> lang (Opt (Seq (UpTo 61 (Sym cls_az09hy)) (Sym cls_az09)))"
    by (auto simp: re_label_def)
  have "list_all cls_az09hy t"
  proof (cases "t = []")
    case False
    with t obtain m e where "t = m @ [e]" "m \<in> lang (UpTo 61 (Sym cls_az09hy))" "cls_az09 e"
      by (auto simp: Opt_def)
    then show ?thesis using lang_UpTo_Sym[of m 61 cls_az09hy] by (simp add: cls_az09hy_def)
  qed simp
  with l c show ?thesis by (simp add: cls_az09hy_def)
qed

lemma dot_not_cls_az09hy: "\<not> cls_az09hy CHR ''.''"
  by (simp add: cls_az09hy_def cls_az09_def cls_az_def isLowerAZ_def isUpperAZ_def isDigit_def)

lemma hyphen_not_cls_az09: "\<not> cls_az09 CHR ''-''"
  by (simp add: cls_az09_def cls_az_def isLowerAZ_def isUpperAZ_def isDigit_def)

lemma dot_not_cls_az: "\<not> cls_az CHR ''.''"
  by (simp add: cls_az_def isLowerAZ_def isUpperAZ_def)

lemma re_label_spec:
  assumes "l \<in> lang re_label"
  shows "spec_label l" and "CHR ''.'' \<notin> set l"
proof -
  from lang_re_label[OF assms] have ne: "l \<noteq> []" and h: "cls_az09 (hd l)"
    and a: "list_all cls_az09hy l" by auto
  from a show "CHR ''.'' \<notin> set l" using dot_not_cls_az09hy by (auto simp: list_all_iff)
  from a have "list_all (\<lambda>c. isLowerAZ c \<or> isUpperAZ c \<or> isDigit c \<or> c = CHR ''-'') l"
    by (auto simp: list_all_iff cls_az09hy_def cls_az09_def cls_az_def)
  with ne h show "spec_label l" using hyphen_not_cls_az09 by (auto simp: spec_label_def)
qed

lemma top_spec:
  assumes "t \<in> lang (AtLeast 2 (Sym cls_az))"
  shows "spec_topLabel t" and "CHR ''.'' \<notin> set t"
proof -
  from assms obtain u v where t: "t = u @ v" and u: "u \<in> lang (Exactly 2 (Sym cls_az))"
    and v: "v \<in> star (lang (Sym cls_az))"
    by (auto simp: AtLeast_def)
  from u have "list_all cls_az u \<and> length u = 2" by (rule lang_Exactly_Sym)
  moreover from v have "list_all cls_az v" by (rule star_Sym)
  ultimately have all: "list_all cls_az t" and len: "2 \<le> length t" using t by auto
  from all len show "spec_topLabel t"
    by (auto simp: spec_topLabel_def list_all_iff cls_az_def)
  from all show "CHR ''.'' \<notin> set t"
    using dot_not_cls_az by (auto simp: list_all_iff)
qed

lemma labels_split:
  assumes "w \<in> star (lang (Seq re_label (Chr CHR ''.'')))" and "CHR ''.'' \<notin> set t"
  shows "\<exists>ls. splitOn CHR ''.'' (w @ t) = ls @ [t] \<and> list_all spec_label ls \<and> (w \<noteq> [] \<longrightarrow> ls \<noteq> [])"
  using assms
proof (induction rule: star.induct)
  case star_empty
  then show ?case by (simp add: splitOn_no_sep)
next
  case (star_step u v)
  from star_step.hyps(1) obtain l where u: "u = l @ ''.''" and l: "l \<in> lang re_label"
    by (auto simp: Chr_def)
  from star_step.IH[OF star_step.prems] obtain ls where
    ls: "splitOn CHR ''.'' (v @ t) = ls @ [t]" "list_all spec_label ls" by blast
  from re_label_spec[OF l] u ls have
    "splitOn CHR ''.'' ((u @ v) @ t) = (l # ls) @ [t]" "list_all spec_label (l # ls)"
    by (simp_all add: splitOn_append)
  then show ?case by blast
qed

lemma re_spec_fqdn:
  assumes "val \<in> lang re"
  shows "spec_fqdn val"
proof -
  from assms obtain p t where val: "val = p @ t"
    and p: "p \<in> lang (Plus (Seq re_label (Chr CHR ''.'')))"
    and t: "t \<in> lang (AtLeast 2 (Sym cls_az))"
    by (auto simp: re_def)
  from p obtain x w where pw: "p = x @ w" "x \<in> lang (Seq re_label (Chr CHR ''.''))"
    "w \<in> star (lang (Seq re_label (Chr CHR ''.'')))"
    by (auto simp: Plus_def)
  then have pstar: "p \<in> star (lang (Seq re_label (Chr CHR ''.'')))"
    by (auto intro: star.star_step)
  from pw have "p \<noteq> []" by (auto simp: Chr_def)
  with labels_split[OF pstar top_spec(2)[OF t]] obtain ls where
    "splitOn CHR ''.'' (p @ t) = ls @ [t]" "list_all spec_label ls" "ls \<noteq> []" by blast
  with top_spec(1)[OF t] val show ?thesis
    by (cases ls) (simp_all add: spec_fqdn_def)
qed

lemma lang_LitI: "w \<in> lang (LitI as) \<Longrightarrow> toLowerCase w = as"
  by (induction as arbitrary: w) (auto simp: ChrI_def toLowerCase_def)

lemma localhostRe_spec:
  assumes "val \<in> lang localhostRe"
  shows "spec_localhost val"
proof -
  from assms consider (plain) "val \<in> lang (LitI ''localhost'')"
    | (port) h p where "val = h @ CHR '':'' # p" "h \<in> lang (LitI ''localhost'')"
        "p \<in> lang (Between 1 5 (Sym isDigit))"
    unfolding localhostRe_def Chr_def by (auto simp del: LitI.simps)
  then show ?thesis
  proof cases
    case plain
    from lang_LitI[OF plain] have low: "toLowerCase val = ''localhost''" .
    then have "length (toLowerCase val) = 9" by simp
    then have "length val = 9" by (simp add: toLowerCase_def)
    with low show ?thesis by (simp add: spec_localhost_def)
  next
    case port
    from lang_LitI[OF port(2)] have low: "toLowerCase h = ''localhost''" .
    then have "length (toLowerCase h) = 9" by simp
    then have len: "length h = 9" by (simp add: toLowerCase_def)
    from port(3) obtain a b where "p = a @ b" "a \<in> lang (Exactly 1 (Sym isDigit))"
      "b \<in> lang (UpTo 4 (Sym isDigit))"
      by (auto simp: Between_def)
    with lang_Exactly_Sym[of a 1 isDigit] lang_UpTo_Sym[of b 4 isDigit]
    have "list_all isDigit p" "1 \<le> length p" "length p \<le> 5" by auto
    with port(1) low len show ?thesis by (simp add: spec_localhost_def)
  qed
qed

lemma domainLooksValid_spec: "domainLooksValid val \<Longrightarrow> spec_domainGrammar val"
  unfolding domainLooksValid_def spec_domainGrammar_def
  using re_spec_fqdn localhostRe_spec by (auto simp: matches_lang)


section \<open>Rules for whole runs\<close>

text \<open>
  A run of \<open>collectProjectMetadata\<close> that returns a configuration ends with a pass of
  \<open>askAll\<close> that completed and a review loop on its result that ended on
  \<open>confirm\<close>; and a property of the terminal that every pass and every review loop
  preserve holds when the run returns.
\<close>

lemma collect_confirmed:
  "collectProjectMetadata clock n w = Some (Some meta', w') \<Longrightarrow>
   \<exists>k v m v1. n \<le> k \<and> askAll (clock k) v = Some (Some m, v1)
      \<and> editLoop m v1 = Some (NConfirm, meta', w')"
proof (induction clock n w rule: collectProjectMetadata.induct)
  case (1 clock n w)
  from "1.prems" obtain m w1 where ask: "askAll (clock n) w = Some (Some m, w1)"
    by (subst (asm) collectProjectMetadata.simps) (auto split: option.splits)
  with "1.prems" obtain nx m2 w2 where loop: "editLoop m w1 = Some (nx, m2, w2)"
    by (subst (asm) collectProjectMetadata.simps) (auto split: option.splits)
  show ?case
  proof (cases nx)
    case NConfirm
    with ask loop "1.prems" have "m2 = meta'" "w2 = w'"
      by (subst (asm) collectProjectMetadata.simps, simp)+
    with ask loop NConfirm show ?thesis by blast
  next
    case NCancel
    with ask loop "1.prems" show ?thesis
      by (subst (asm) collectProjectMetadata.simps) simp
  next
    case NStartOver
    with ask loop "1.prems" have "collectProjectMetadata clock (Suc n) w2 = Some (Some meta', w')"
      by (subst (asm) collectProjectMetadata.simps) simp
    from "1.IH"[OF ask refl refl loop refl refl _ _ this] NStartOver
    obtain k v m v1 where "Suc n \<le> k" "askAll (clock k) v = Some (Some m, v1)"
      "editLoop m v1 = Some (NConfirm, meta', w')" by auto
    then show ?thesis by (intro exI[of _ k]) auto
  qed
qed










lemma askAll_Some_meta:
  "askAll now w = Some (Some m, w') \<Longrightarrow> \<exists>res. askAll_group w = Some (Value res, w') \<and> m = askAll_meta now res"
  unfolding askAll_def by (auto split: option.splits answer.splits)

text \<open>
  The two copies of \<open>domainLooksValid\<close> disagree: the second accepts a label that
  starts with a hyphen when it is not the first label, which the grammar of the
  specification excludes, and wants at least two digits of a port.
\<close>

lemma domainLooksValid_copies_differ:
  "domainLooksValid_copy2 ''a.-b.com'' \<and> \<not> domainLooksValid ''a.-b.com'' \<and>
   \<not> spec_domainGrammar ''a.-b.com'' \<and>
   \<not> domainLooksValid_copy2 ''localhost:1'' \<and> domainLooksValid ''localhost:1'' \<and>
   spec_domainGrammar ''localhost:1''"
  by code_simp

section \<open>The cross-field normalizer\<close>

text \<open>
  Claim C4. Applying \<open>normalizeFrontendHosting\<close> twice in succession gives exactly
  the configuration that applying it once gives, for every configuration.
\<close>

theorem normalizeFrontendHosting_idempotent:
  "normalizeFrontendHosting (normalizeFrontendHosting meta) = normalizeFrontendHosting meta"
  by (simp add: normalizeFrontendHosting_def)

section \<open>Hosting consistency\<close>












section \<open>Accepted text has passed its validator\<close>

lemma p_text_loop_valid:
  "p_text_loop validate i w rs = Some (Value s, w') \<Longrightarrow> validate (Some s) = None"
proof (induction rs)
  case Nil
  then show ?case by simp
next
  case (Cons r rs)
  show ?case
  proof (cases r)
    case (RText s)
    with Cons show ?thesis by (cases "validate (Some s)") auto
  next
    case RAccept
    with Cons show ?thesis
      by (cases "validate (Some (case i of None \<Rightarrow> [] | Some x \<Rightarrow> x))") (auto simp: Let_def)
  qed (use Cons in auto)
qed

lemma p_text_valid:
  "p_text validate i w = Some (Value s, w') \<Longrightarrow> validate (Some s) = None"
  unfolding p_text_def by (rule p_text_loop_valid)

text \<open>
  A value of the group is either an accepted answer, which has passed the validator of
  its prompt, or the placeholder that \<open>p.group\<close> stores for a cancelled prompt.
\<close>

lemma askAll_group_valid:
  "askAll_group w = Some (Value res, w') \<Longrightarrow>
     (projectName_validate (Some (r_projectName res)) = None \<or>
      r_projectName res = ''canceled'') \<and>
     (domain_validate (Some (r_domain res)) = None \<or> r_domain res = ''canceled'')"
  unfolding askAll_group_def p_group_step_def prompts_projectName_def prompts_domain_def
  by (auto split: option.splits answer.splits dest!: p_text_valid)

text \<open>
  The text prompt reads the terminal's state only to store the remaining responses.
\<close>

lemma p_text_loop_world:
  "p_text_loop validate i (w\<lparr>input := x\<rparr>) rs = p_text_loop validate i w rs"
proof (induction rs)
  case Nil
  then show ?case by simp
next
  case (Cons r rs)
  then show ?case by (cases r) (simp_all add: Let_def split: option.splits)
qed

section \<open>Domain well-formedness\<close>

text \<open>
  The stored domain is absent, a string that \<open>domainLooksValid\<close> accepts, or the
  placeholder that \<open>p.group\<close> stores for a cancelled domain prompt.
\<close>

definition domainAccepted :: "ProjectMetadata \<Rightarrow> bool" where
  "domainAccepted meta =
     (case domain meta of None \<Rightarrow> True | Some d \<Rightarrow> domainLooksValid d \<or> d = ''canceled'')"

lemma validated_domain:
  "domain_validate (Some v) = None \<Longrightarrow>
     (case normalizeDomain (Some v) of None \<Rightarrow> True | Some d \<Rightarrow> domainLooksValid d)"
  unfolding domain_validate_def by (auto split: option.splits if_splits)

lemma normalize_domain [simp]: "domain (normalizeFrontendHosting m) = domain m"
  by (simp add: normalizeFrontendHosting_def)

lemma normalizeDomain_canceled: "normalizeDomain (Some ''canceled'') = Some ''canceled''"
  by code_simp

lemma askAll_domainAccepted:
  assumes "askAll now w = Some (Some m, w')"
  shows "domainAccepted m"
proof -
  from askAll_Some_meta[OF assms] obtain res where
    g: "askAll_group w = Some (Value res, w')" and m: "m = askAll_meta now res" by blast
  from askAll_group_valid[OF g]
  have "domain_validate (Some (r_domain res)) = None \<or> r_domain res = ''canceled''"
    by (rule conjunct2)
  then show ?thesis
  proof
    assume "domain_validate (Some (r_domain res)) = None"
    from validated_domain[OF this] m show ?thesis
      by (auto simp: domainAccepted_def askAll_meta_def split: option.splits)
  next
    assume "r_domain res = ''canceled''"
    with m show ?thesis
      by (simp add: domainAccepted_def askAll_meta_def normalizeDomain_canceled)
  qed
qed

lemma editField_domainAccepted:
  assumes "editField m f v = Some (m1, v1)" and "domainAccepted m"
  shows "domainAccepted m1"
proof (cases f)
  case FDomain
  with assms(1) consider (cancel) "m1 = m"
    | (edit) s w1 where "prompts_domain (domain m) v = Some (Value s, w1)"
        "m1 = m\<lparr>domain := normalizeDomain (Some s)\<rparr>"
    by (auto split: option.splits answer.splits)
  then show ?thesis
  proof cases
    case cancel
    with assms(2) show ?thesis by simp
  next
    case edit
    from edit(1) have "domain_validate (Some s) = None"
      unfolding prompts_domain_def by (rule p_text_valid)
    from validated_domain[OF this] edit(2) show ?thesis
      by (auto simp: domainAccepted_def split: option.splits)
  qed
next
  case FProjectName
  with assms show ?thesis
    by (auto split: option.splits answer.splits simp: domainAccepted_def)
next
  case FNetwork
  with assms show ?thesis
    by (auto split: option.splits answer.splits simp: domainAccepted_def)
next
  case FDeploymentType
  with assms show ?thesis
    by (auto split: option.splits answer.splits simp: domainAccepted_def)
next
  case FFrontendHosting
  with assms show ?thesis
    by (auto split: option.splits answer.splits simp: domainAccepted_def)
next
  case FIntegrations
  with assms show ?thesis
    by (auto split: option.splits answer.splits simp: domainAccepted_def)
qed

lemma collect_domainAccepted:
  assumes run: "collectProjectMetadata clock n w = Some (Some meta', w')"
  shows "domainAccepted meta'"
proof -
  from collect_confirmed[OF run] obtain k v0 m v where
    a: "askAll (clock k) v0 = Some (Some m, v)" and l: "editLoop m v = Some (NConfirm, meta', w')"
    by blast
  show ?thesis
    using l
  proof (rule editLoop_invariant[where I = "\<lambda>m v. domainAccepted m"])
    show "domainAccepted m" by (rule askAll_domainAccepted[OF a])
  next
    fix m f v m1 v1
    assume "domainAccepted m" "editField m f v = Some (m1, v1)"
    then show "domainAccepted m1" by (rule editField_domainAccepted[rotated])
  qed
qed

text \<open>
  The validator of the first copy rejects every input whose normal form is outside the
  grammar of the specification.
\<close>

lemma domain_validate_rejects:
  assumes "normalizeDomain (Some v) = Some t" and "\<not> spec_domainGrammar t"
  shows "domain_validate (Some v) =
           Some ''Please enter a valid domain (e.g., api.example.com) or leave blank.''"
proof -
  from assms(2) have "\<not> domainLooksValid t" using domainLooksValid_spec by blast
  with assms(1) show ?thesis by (simp add: domain_validate_def)
qed

definition scenarioA :: "response list" where
  "scenarioA = [RText ''My Gw'', RNetwork Testnet, RDeployment Vps, RHosting SameVps,
     RText ''HTTPS://API.Example.com/'', RIntegrations [], RChoice Confirm]"

definition scenarioDomainCancel :: "response list" where
  "scenarioDomainCancel =
     [RText ''gw'', RAccept, RAccept, RAccept, RCancel, RAccept, RChoice Confirm]"


text \<open>
  Claim C2. The specification wants the domain of every accepted configuration to be
  absent or inside its grammar (dot-separated labels, none hyphen-leading, a top label
  of at least two letters; or \<open>localhost\<close> with an optional colon and 1 to 5 digits),
  and every other non-blank input to be rejected. The code departs from this twice.
  When the operator cancels the domain prompt of the first pass and confirms, the
  configuration that \<open>collectProjectMetadata\<close> returns and shows has the domain
  \<open>canceled\<close>, the placeholder of \<open>p.group\<close> passed through \<open>normalizeDomain\<close> at
  line 176; it has no dot and is not \<open>localhost\<close>, so it is outside the grammar. And
  the validator of the second copy of the module (lines 303 to 308, used at lines 391
  to 401) accepts \<open>a.-b.com\<close>, whose second label starts with a hyphen, which the
  grammar excludes and the first copy rejects.
\<close>

theorem domain_grammar_violated:
  "collectProjectMetadata (\<lambda>n. ''t'') 0 \<lparr>input = scenarioDomainCancel, displayed = []\<rparr> =
     Some (Some \<lparr>projectName = ''gw'', network = Testnet, deploymentType = Vps,
                  frontendHosting = SameVps, domain = Some ''canceled'',
                  integrations = Items [], createdAtIso = ''t''\<rparr>,
           \<lparr>input = [],
            displayed = [\<lparr>projectName = ''gw'', network = Testnet, deploymentType = Vps,
                  frontendHosting = SameVps, domain = Some ''canceled'',
                  integrations = Items [], createdAtIso = ''t''\<rparr>]\<rparr>)
   \<and> \<not> spec_domainGrammar ''canceled''
   \<and> normalizeDomain (Some ''a.-b.com'') = Some ''a.-b.com''
   \<and> domain_validate_copy2 (Some ''a.-b.com'') = None
   \<and> domain_validate (Some ''a.-b.com'') =
         Some ''Please enter a valid domain (e.g., api.example.com) or leave blank.''
   \<and> \<not> spec_domainGrammar ''a.-b.com''"
  by code_simp


section \<open>Domain normalization\<close>

text \<open>
  The normal form of a domain in the words of the specification: the input trimmed,
  lower-cased, with one leading \<open>http://\<close> or \<open>https://\<close> removed and all trailing
  slashes removed. These definitions follow the specification, not the source.
\<close>

definition spec_stripSchemePrefix :: "string \<Rightarrow> string" where
  "spec_stripSchemePrefix t =
     (if take 7 t = ''http://'' then drop 7 t
      else if take 8 t = ''https://'' then drop 8 t
      else t)"

definition spec_dropTrailingSlashes :: "string \<Rightarrow> string" where
  "spec_dropTrailingSlashes t = rev (dropWhile (\<lambda>c. c = CHR ''/'') (rev t))"

definition spec_normalized :: "string \<Rightarrow> string" where
  "spec_normalized v = spec_dropTrailingSlashes (spec_stripSchemePrefix (toLowerCase (trim v)))"

lemma stripTrailingSlashes_all:
  "list_all (\<lambda>x. x = CHR ''/'') t \<Longrightarrow> stripTrailingSlashes t = []"
  by (cases t) auto

lemma stripTrailingSlashes_spec: "stripTrailingSlashes t = spec_dropTrailingSlashes t"
proof (induction t)
  case Nil
  then show ?case by (simp add: spec_dropTrailingSlashes_def)
next
  case (Cons c cs)
  show ?case
  proof (cases "list_all (\<lambda>x. x = CHR ''/'') cs")
    case True
    then have "\<forall>x\<in>set (rev cs). x = CHR ''/''" by (simp add: list_all_iff)
    with True show ?thesis
      by (simp add: spec_dropTrailingSlashes_def dropWhile_append stripTrailingSlashes_all)
  next
    case False
    then have "\<not> (\<forall>x\<in>set (rev cs). x = CHR ''/'')" by (simp add: list_all_iff)
    with False Cons show ?thesis
      by (simp add: spec_dropTrailingSlashes_def dropWhile_append)
  qed
qed

lemma toLowerUnit_cases:
  "toLowerUnit c = c \<or> (c \<in> set upperCaseUnits \<and> toLowerUnit c \<in> set lowerCaseUnits)"
proof (cases "map_of (zip upperCaseUnits lowerCaseUnits) c")
  case None
  then show ?thesis by (simp add: toLowerUnit_def)
next
  case (Some l)
  then have "(c, l) \<in> set (zip upperCaseUnits lowerCaseUnits)" by (rule map_of_SomeD)
  then have "c \<in> set upperCaseUnits" "l \<in> set lowerCaseUnits"
    by (auto dest: set_zip_leftD set_zip_rightD)
  with Some show ?thesis by (simp add: toLowerUnit_def)
qed

lemma caseUnits_not_whiteSpace:
  "\<forall>c\<in>set upperCaseUnits. \<not> isWhiteSpace c" "\<forall>c\<in>set lowerCaseUnits. \<not> isWhiteSpace c"
  by (simp_all add: upperCaseUnits_def lowerCaseUnits_def isWhiteSpace_def whiteSpaceUnits_def)

lemma isWhiteSpace_toLowerUnit: "isWhiteSpace (toLowerUnit c) = isWhiteSpace c"
  using toLowerUnit_cases[of c] caseUnits_not_whiteSpace by auto

lemma trimEnd_hd: "s \<noteq> [] \<Longrightarrow> \<not> isWhiteSpace (hd s) \<Longrightarrow> trimEnd s \<noteq> [] \<and> hd (trimEnd s) = hd s"
proof (cases s)
  case Nil
  then show "s \<noteq> [] \<Longrightarrow> ?thesis" by simp
next
  case (Cons c cs)
  assume "\<not> isWhiteSpace (hd s)"
  with Cons show ?thesis
    by (auto simp: trimEnd_def dropWhile_append)
qed

lemma trim_no_leading_whiteSpace: "dropWhile isWhiteSpace (trim v) = trim v"
proof (cases "dropWhile isWhiteSpace v")
  case Nil
  then have "trim v = []" by (simp only: trim_def trimStart_def trimEnd_def) simp
  then show ?thesis by simp
next
  case (Cons c cs)
  then have "\<not> isWhiteSpace (hd (dropWhile isWhiteSpace v))"
    using hd_dropWhile[of isWhiteSpace v] by simp
  with Cons trimEnd_hd[of "dropWhile isWhiteSpace v"]
  have "trim v \<noteq> []" "\<not> isWhiteSpace (hd (trim v))"
    by (simp_all add: trim_def trimStart_def)
  then show ?thesis by (cases "trim v") auto
qed

lemma toLowerCase_no_leading_whiteSpace:
  "dropWhile isWhiteSpace (toLowerCase (trim v)) = toLowerCase (trim v)"
proof -
  have "dropWhile isWhiteSpace (toLowerCase (trim v)) =
        toLowerCase (dropWhile isWhiteSpace (trim v))"
    by (simp add: toLowerCase_def dropWhile_map comp_def isWhiteSpace_toLowerUnit)
  then show ?thesis by (simp add: trim_no_leading_whiteSpace)
qed

lemma stripScheme_spec:
  "stripScheme (toLowerCase (trim v)) = spec_stripSchemePrefix (toLowerCase (trim v))"
  by (simp add: stripScheme_def spec_stripSchemePrefix_def toLowerCase_no_leading_whiteSpace)

lemma normalizeDomain_spec:
  "normalizeDomain (Some v) = (if spec_normalized v = [] then None else Some (spec_normalized v))"
proof (cases "v = []")
  case True
  then show ?thesis
    by (simp add: normalizeDomain_def spec_normalized_def trim_def trimStart_def trimEnd_def
        toLowerCase_def spec_stripSchemePrefix_def spec_dropTrailingSlashes_def)
next
  case False
  then show ?thesis
    by (simp add: normalizeDomain_def spec_normalized_def Let_def stripScheme_spec
        stripTrailingSlashes_spec)
qed


lemma scenarioA_run:
  "collectProjectMetadata clock 0 \<lparr>input = scenarioA, displayed = []\<rparr> =
     Some (Some \<lparr>projectName = ''My Gw'', network = Testnet, deploymentType = Vps,
                  frontendHosting = SameVps, domain = Some ''api.example.com'',
                  integrations = Items [], createdAtIso = clock 0\<rparr>,
           \<lparr>input = [],
            displayed = [\<lparr>projectName = ''My Gw'', network = Testnet, deploymentType = Vps,
                  frontendHosting = SameVps, domain = Some ''api.example.com'',
                  integrations = Items [], createdAtIso = clock 0\<rparr>]\<rparr>)"
  by code_simp

text \<open>
  Claim C3. For every domain input whose normal form is not blank, the domain stored
  (by \<open>normalizeDomain\<close>, by the edit of the domain field and by a full pass) is the
  input trimmed, lower-cased, without one leading \<open>http://\<close> or \<open>https://\<close> and
  without its trailing slashes; the input \<open>HTTPS://API.Example.com/\<close> is accepted by
  the validator and stored as \<open>api.example.com\<close>.
\<close>

theorem domain_normalization:
  "(spec_normalized v \<noteq> [] \<longrightarrow> normalizeDomain (Some v) = Some (spec_normalized v))
   \<and> (spec_normalized v \<noteq> [] \<longrightarrow> domain_validate (Some v) = None \<longrightarrow>
        input w = RText v # rs \<longrightarrow>
        editField meta FDomain w =
          Some (meta\<lparr>domain := Some (spec_normalized v)\<rparr>, w\<lparr>input := rs\<rparr>))
   \<and> (spec_normalized (r_domain res) \<noteq> [] \<longrightarrow>
        domain (askAll_meta now res) = Some (spec_normalized (r_domain res)))
   \<and> spec_normalized ''HTTPS://API.Example.com/'' = ''api.example.com''
   \<and> domain_validate (Some ''HTTPS://API.Example.com/'') = None
   \<and> map_option (\<lambda>(r, w'). map_option domain r)
         (collectProjectMetadata clock 0 \<lparr>input = scenarioA, displayed = []\<rparr>) =
       Some (Some (Some ''api.example.com''))"
proof (intro conjI impI)
  assume "spec_normalized v \<noteq> []"
  then show "normalizeDomain (Some v) = Some (spec_normalized v)"
    by (simp add: normalizeDomain_spec)
next
  assume "spec_normalized v \<noteq> []" "domain_validate (Some v) = None" "input w = RText v # rs"
  then show "editField meta FDomain w =
          Some (meta\<lparr>domain := Some (spec_normalized v)\<rparr>, w\<lparr>input := rs\<rparr>)"
    by (simp add: prompts_domain_def p_text_def normalizeDomain_spec)
next
  assume "spec_normalized (r_domain res) \<noteq> []"
  then show "domain (askAll_meta now res) = Some (spec_normalized (r_domain res))"
    by (simp add: askAll_meta_def normalizeDomain_spec)
next
  show "spec_normalized ''HTTPS://API.Example.com/'' = ''api.example.com''"
    by code_simp
  show "domain_validate (Some ''HTTPS://API.Example.com/'') = None"
    by code_simp
  show "map_option (\<lambda>(r, w'). map_option domain r)
         (collectProjectMetadata clock 0 \<lparr>input = scenarioA, displayed = []\<rparr>) =
       Some (Some (Some ''api.example.com''))"
    by (simp add: scenarioA_run)
qed

theorem domain_normalization_witness:
  "spec_normalized '' http://Example.ORG// '' = ''example.org''
   \<and> normalizeDomain (Some '' http://Example.ORG// '') = Some ''example.org''
   \<and> domain_validate (Some '' http://Example.ORG// '') = None
   \<and> editField \<lparr>projectName = ''gw'', network = Testnet, deploymentType = Vps,
         frontendHosting = Skip, domain = None, integrations = Items [], createdAtIso = ''t''\<rparr>
         FDomain \<lparr>input = [RText '' http://Example.ORG// '', RChoice Confirm], displayed = []\<rparr> =
       Some (\<lparr>projectName = ''gw'', network = Testnet, deploymentType = Vps,
         frontendHosting = Skip, domain = Some ''example.org'', integrations = Items [],
         createdAtIso = ''t''\<rparr>, \<lparr>input = [RChoice Confirm], displayed = []\<rparr>)
   \<and> domain (askAll_meta ''t'' \<lparr>r_projectName = ''gw'', r_network = Testnet,
         r_deploymentType = Vps, r_frontendHosting = Skip,
         r_domain = '' http://Example.ORG// '', r_integrations = None\<rparr>) = Some ''example.org''"
proof -
  have n: "spec_normalized '' http://Example.ORG// '' = ''example.org''"
    by code_simp
  have v: "domain_validate (Some '' http://Example.ORG// '') = None"
    by code_simp
  from domain_normalization[of "'' http://Example.ORG// ''"
      "\<lparr>input = [RText '' http://Example.ORG// '', RChoice Confirm], displayed = []\<rparr>"
      "[RChoice Confirm]"
      "\<lparr>projectName = ''gw'', network = Testnet, deploymentType = Vps,
         frontendHosting = Skip, domain = None, integrations = Items [], createdAtIso = ''t''\<rparr>"
      "\<lparr>r_projectName = ''gw'', r_network = Testnet,
         r_deploymentType = Vps, r_frontendHosting = Skip,
         r_domain = '' http://Example.ORG// '', r_integrations = None\<rparr>" "''t''"] n v
  show ?thesis by simp
qed


section \<open>Blank domain input\<close>

lemma only_whiteSpace_blank:
  assumes "list_all isWhiteSpace v"
  shows "normalizeDomain (Some v) = None"
proof -
  from assms have "dropWhile isWhiteSpace v = []" by (simp add: list_all_iff)
  then have "trim v = []" by (simp only: trim_def trimStart_def trimEnd_def) simp
  then have "spec_normalized v = []"
    by (simp add: spec_normalized_def toLowerCase_def spec_stripSchemePrefix_def
        spec_dropTrailingSlashes_def)
  then show ?thesis by (simp add: normalizeDomain_spec)
qed

lemma slash_facts:
  "\<not> isWhiteSpace CHR ''/''" "toLowerUnit CHR ''/'' = CHR ''/''"
  by (simp_all add: isWhiteSpace_def whiteSpaceUnits_def toLowerUnit_def upperCaseUnits_def
      lowerCaseUnits_def)

lemma list_all_eq_replicate: "list_all (\<lambda>c. c = a) v \<Longrightarrow> v = replicate (length v) a"
  by (induction v) auto

lemma slashes_normalized: "spec_normalized (replicate n CHR ''/'') = []"
proof -
  have t: "trim (replicate n CHR ''/'') = replicate n CHR ''/''"
    by (simp add: trim_def trimStart_def trimEnd_def dropWhile_replicate slash_facts)
  have l: "toLowerCase (replicate n CHR ''/'') = replicate n CHR ''/''"
    by (simp add: toLowerCase_def slash_facts)
  have s: "spec_stripSchemePrefix (replicate n CHR ''/'') = replicate n CHR ''/''"
    by (cases n) (simp_all add: spec_stripSchemePrefix_def)
  have d: "spec_dropTrailingSlashes (replicate n CHR ''/'') = []"
    by (simp add: spec_dropTrailingSlashes_def dropWhile_replicate)
  show ?thesis by (simp add: spec_normalized_def t l s d)
qed

lemma only_slashes_blank:
  assumes "list_all (\<lambda>c. c = CHR ''/'') v"
  shows "normalizeDomain (Some v) = None"
proof -
  from list_all_eq_replicate[OF assms] obtain n where "v = replicate n CHR ''/''" ..
  then show ?thesis by (simp add: normalizeDomain_spec slashes_normalized)
qed

text \<open>
  Claim C10. The domain validator treats as blank every input that normalizes to
  nothing, not only the empty string: a bare scheme, only slashes, only white space.
  Such input is accepted without a message, and the domain stored for it (by the edit
  of the field and by a full pass) is absent.
\<close>

theorem blank_domain_clears:
  "(normalizeDomain (Some v) = None \<longrightarrow>
      domain_validate (Some v) = None \<and>
      (input w = RText v # rs \<longrightarrow>
         editField meta FDomain w = Some (meta\<lparr>domain := None\<rparr>, w\<lparr>input := rs\<rparr>)) \<and>
      (r_domain res = v \<longrightarrow> domain (askAll_meta now res) = None))
   \<and> (list_all isWhiteSpace v \<longrightarrow> normalizeDomain (Some v) = None)
   \<and> (list_all (\<lambda>c. c = CHR ''/'') v \<longrightarrow> normalizeDomain (Some v) = None)
   \<and> normalizeDomain (Some ''https://'') = None
   \<and> normalizeDomain (Some ''http://'') = None
   \<and> normalizeDomain (Some '' HTTPS:/// '') = None
   \<and> normalizeDomain (Some []) = None
   \<and> normalizeDomain None = None"
proof (intro conjI impI)
  assume n: "normalizeDomain (Some v) = None"
  then show "domain_validate (Some v) = None" by (simp add: domain_validate_def)
  { assume "input w = RText v # rs"
    with n show "editField meta FDomain w = Some (meta\<lparr>domain := None\<rparr>, w\<lparr>input := rs\<rparr>)"
      by (simp add: prompts_domain_def p_text_def domain_validate_def) }
  { assume "r_domain res = v"
    with n show "domain (askAll_meta now res) = None"
      by (simp add: askAll_meta_def) }
next
  assume "list_all isWhiteSpace v"
  then show "normalizeDomain (Some v) = None" by (rule only_whiteSpace_blank)
next
  assume "list_all (\<lambda>c. c = CHR ''/'') v"
  then show "normalizeDomain (Some v) = None" by (rule only_slashes_blank)
next
  show "normalizeDomain (Some ''https://'') = None" by code_simp
  show "normalizeDomain (Some ''http://'') = None" by code_simp
  show "normalizeDomain (Some '' HTTPS:/// '') = None" by code_simp
  show "normalizeDomain (Some []) = None" by code_simp
  show "normalizeDomain None = None" by code_simp
qed

theorem blank_domain_clears_witness:
  "normalizeDomain (Some ''https://'') = None
   \<and> domain_validate (Some ''https://'') = None
   \<and> editField \<lparr>projectName = ''gw'', network = Testnet, deploymentType = Vps,
         frontendHosting = Skip, domain = Some ''api.example.com'', integrations = Items [],
         createdAtIso = ''t''\<rparr>
         FDomain \<lparr>input = [RText ''https://'', RChoice Confirm], displayed = []\<rparr> =
       Some (\<lparr>projectName = ''gw'', network = Testnet, deploymentType = Vps,
         frontendHosting = Skip, domain = None, integrations = Items [],
         createdAtIso = ''t''\<rparr>, \<lparr>input = [RChoice Confirm], displayed = []\<rparr>)
   \<and> domain (askAll_meta ''t'' \<lparr>r_projectName = ''gw'', r_network = Testnet,
         r_deploymentType = Vps, r_frontendHosting = Skip,
         r_domain = ''https://'', r_integrations = None\<rparr>) = None
   \<and> list_all isWhiteSpace [CHR 0x20, CHR 0x09]
   \<and> normalizeDomain (Some [CHR 0x20, CHR 0x09]) = None
   \<and> list_all (\<lambda>c. c = CHR ''/'') ''///''
   \<and> normalizeDomain (Some ''///'') = None"
proof -
  have n: "normalizeDomain (Some ''https://'') = None" by code_simp
  have ws: "list_all isWhiteSpace [CHR 0x20, CHR 0x09]" by code_simp
  have sl: "list_all (\<lambda>c. c = CHR ''/'') ''///''" by simp
  from blank_domain_clears[of "''https://''"
      "\<lparr>input = [RText ''https://'', RChoice Confirm], displayed = []\<rparr>" "[RChoice Confirm]"
      "\<lparr>projectName = ''gw'', network = Testnet, deploymentType = Vps,
         frontendHosting = Skip, domain = Some ''api.example.com'', integrations = Items [],
         createdAtIso = ''t''\<rparr>"
      "\<lparr>r_projectName = ''gw'', r_network = Testnet,
         r_deploymentType = Vps, r_frontendHosting = Skip,
         r_domain = ''https://'', r_integrations = None\<rparr>" "''t''"]
    blank_domain_clears[of "[CHR 0x20, CHR 0x09]"] blank_domain_clears[of "''///''"] n ws sl
  show ?thesis by simp
qed


section \<open>The project name\<close>

text \<open>
  Property P1 in the words of the specification: the project name is stored trimmed,
  and its trimmed length is between 1 and 64.
\<close>

definition nameWellFormed :: "ProjectMetadata \<Rightarrow> bool" where
  "nameWellFormed meta =
     (trim (projectName meta) = projectName meta \<and>
      1 \<le> length (trim (projectName meta)) \<and> length (trim (projectName meta)) \<le> 64)"

lemma trim_idem: "trim (trim s) = trim s"
proof -
  have "dropWhile isWhiteSpace (rev (trim s)) = rev (trim s)"
    by (simp add: trim_def trimStart_def trimEnd_def)
  then have "trimEnd (trim s) = trim s" by (simp add: trimEnd_def)
  then show ?thesis
    using trim_no_leading_whiteSpace[of s] by (simp add: trim_def[of "trim s"] trimStart_def)
qed

lemma length_trim: "length (trim s) \<le> length s"
proof -
  have "length (trim s) \<le> length (trimStart s)"
    using length_dropWhile_le[of isWhiteSpace "rev (trimStart s)"]
    by (simp add: trim_def trimEnd_def)
  also have "\<dots> \<le> length s" by (simp add: trimStart_def length_dropWhile_le)
  finally show ?thesis .
qed

lemma validated_name:
  assumes "projectName_validate (Some s) = None"
  shows "1 \<le> length (trim s) \<and> length (trim s) \<le> 64"
proof -
  from assms have ne: "trim s \<noteq> []" and len: "length s \<le> 64"
    by (auto simp: projectName_validate_def split: if_splits)
  from ne have "1 \<le> length (trim s)" by (cases "trim s") auto
  moreover from len length_trim[of s] have "length (trim s) \<le> 64" by simp
  ultimately show ?thesis by simp
qed

lemma normalize_projectName [simp]: "projectName (normalizeFrontendHosting m) = projectName m"
  by (simp add: normalizeFrontendHosting_def)

text \<open>
  The placeholder of a cancelled name prompt is itself a name the validator accepts.
\<close>

lemma projectName_validate_canceled: "projectName_validate (Some ''canceled'') = None"
  by code_simp

lemma askAll_nameWellFormed:
  assumes "askAll now w = Some (Some m, w')"
  shows "nameWellFormed m"
proof -
  from askAll_Some_meta[OF assms] obtain res where
    g: "askAll_group w = Some (Value res, w')" and m: "m = askAll_meta now res" by blast
  from askAll_group_valid[OF g]
  have "projectName_validate (Some (r_projectName res)) = None \<or>
        r_projectName res = ''canceled''"
    by (rule conjunct1)
  then have "projectName_validate (Some (r_projectName res)) = None"
  proof
    assume "r_projectName res = ''canceled''"
    then show ?thesis by (simp only: projectName_validate_canceled)
  qed
  from validated_name[OF this] m show ?thesis
    by (simp add: nameWellFormed_def askAll_meta_def trim_idem)
qed

lemma editField_nameWellFormed:
  assumes "editField m f v = Some (m1, v1)" and "nameWellFormed m"
  shows "nameWellFormed m1"
proof (cases f)
  case FProjectName
  with assms(1) consider (cancel) "m1 = m"
    | (edit) s w1 where "prompts_projectName (Some (projectName m)) v = Some (Value s, w1)"
        "m1 = m\<lparr>projectName := trim s\<rparr>"
    by (auto split: option.splits answer.splits)
  then show ?thesis
  proof cases
    case cancel
    with assms(2) show ?thesis by simp
  next
    case edit
    from edit(1) have "projectName_validate (Some s) = None"
      unfolding prompts_projectName_def by (rule p_text_valid)
    from validated_name[OF this] edit(2) show ?thesis by (simp add: nameWellFormed_def trim_idem)
  qed
next
  case FDomain
  with assms show ?thesis
    by (auto split: option.splits answer.splits simp: nameWellFormed_def)
next
  case FNetwork
  with assms show ?thesis
    by (auto split: option.splits answer.splits simp: nameWellFormed_def)
next
  case FDeploymentType
  with assms show ?thesis
    by (auto split: option.splits answer.splits simp: nameWellFormed_def)
next
  case FFrontendHosting
  with assms show ?thesis
    by (auto split: option.splits answer.splits simp: nameWellFormed_def)
next
  case FIntegrations
  with assms show ?thesis
    by (auto split: option.splits answer.splits simp: nameWellFormed_def)
qed

lemma collect_nameWellFormed:
  assumes run: "collectProjectMetadata clock n w = Some (Some meta', w')"
  shows "nameWellFormed meta'"
proof -
  from collect_confirmed[OF run] obtain k v0 m v where
    a: "askAll (clock k) v0 = Some (Some m, v)" and l: "editLoop m v = Some (NConfirm, meta', w')"
    by blast
  show ?thesis
    using l
  proof (rule editLoop_invariant[where I = "\<lambda>m v. nameWellFormed m"])
    show "nameWellFormed m" by (rule askAll_nameWellFormed[OF a])
  next
    fix m f v m1 v1
    assume "nameWellFormed m" "editField m f v = Some (m1, v1)"
    then show "nameWellFormed m1" by (rule editField_nameWellFormed[rotated])
  qed
qed

definition longName :: string where
  "longName = replicate 65 CHR ''a''"

text \<open>
  Claim C8. The project name of every configuration returned by
  \<open>collectProjectMetadata\<close> is trimmed and has a length from 1 to 64. The validator
  rejects an input that is empty after trimming and an input of more than 64
  characters, each with its message, and the prompt then asks again: the rejected
  response is consumed and the same prompt reads the next one.
\<close>

theorem project_name_bounds:
  "(collectProjectMetadata clock n w = Some (Some meta, w') \<longrightarrow> nameWellFormed meta)
   \<and> (trim v = [] \<longrightarrow> projectName_validate (Some v) = Some ''Please enter a project name.'')
   \<and> (trim v \<noteq> [] \<longrightarrow> 64 < length v \<longrightarrow>
        projectName_validate (Some v) = Some ''Keep it under 64 characters.'')
   \<and> projectName_validate None = Some ''Please enter a project name.''
   \<and> (trim v = [] \<or> 64 < length v \<longrightarrow>
        prompts_projectName i (u\<lparr>input := RText v # rs\<rparr>) =
        prompts_projectName i (u\<lparr>input := rs\<rparr>))"
proof (intro conjI impI)
  assume "collectProjectMetadata clock n w = Some (Some meta, w')"
  then show "nameWellFormed meta" by (rule collect_nameWellFormed)
next
  assume "trim v = []"
  then show "projectName_validate (Some v) = Some ''Please enter a project name.''"
    by (simp add: projectName_validate_def)
next
  assume "trim v \<noteq> []" "64 < length v"
  then show "projectName_validate (Some v) = Some ''Keep it under 64 characters.''"
    by (simp add: projectName_validate_def)
next
  show "projectName_validate None = Some ''Please enter a project name.''"
    by (simp add: projectName_validate_def)
next
  assume "trim v = [] \<or> 64 < length v"
  then obtain msg where "projectName_validate (Some v) = Some msg"
    by (cases "trim v = []") (auto simp: projectName_validate_def)
  then show "prompts_projectName i (u\<lparr>input := RText v # rs\<rparr>) =
        prompts_projectName i (u\<lparr>input := rs\<rparr>)"
    by (simp add: prompts_projectName_def p_text_def p_text_loop_world)
qed


theorem project_name_bounds_witness:
  "collectProjectMetadata (\<lambda>n. ''t'') 0
     \<lparr>input = [RText [CHR 0x20], RText longName, RText ''  My Gw '', RAccept, RAccept, RAccept,
               RAccept, RAccept, RChoice Edit, RField FProjectName, RText '' gw2  '',
               RChoice Confirm],
      displayed = []\<rparr> =
     Some (Some \<lparr>projectName = ''gw2'', network = Testnet, deploymentType = Vps,
                  frontendHosting = SameVps, domain = None, integrations = Items [],
                  createdAtIso = ''t''\<rparr>,
           \<lparr>input = [],
            displayed =
              [\<lparr>projectName = ''My Gw'', network = Testnet, deploymentType = Vps,
                frontendHosting = SameVps, domain = None, integrations = Items [],
                createdAtIso = ''t''\<rparr>,
               \<lparr>projectName = ''gw2'', network = Testnet, deploymentType = Vps,
                frontendHosting = SameVps, domain = None, integrations = Items [],
                createdAtIso = ''t''\<rparr>]\<rparr>)
   \<and> nameWellFormed \<lparr>projectName = ''gw2'', network = Testnet, deploymentType = Vps,
                  frontendHosting = SameVps, domain = None, integrations = Items [],
                  createdAtIso = ''t''\<rparr>
   \<and> trim [CHR 0x20] = []
   \<and> projectName_validate (Some [CHR 0x20]) = Some ''Please enter a project name.''
   \<and> length longName = 65
   \<and> projectName_validate (Some longName) = Some ''Keep it under 64 characters.''
   \<and> prompts_projectName None \<lparr>input = [RText longName, RText ''gw''], displayed = []\<rparr> =
       prompts_projectName None \<lparr>input = [RText ''gw''], displayed = []\<rparr>"
proof -
  let ?m = "\<lparr>projectName = ''gw2'', network = Testnet, deploymentType = Vps,
                  frontendHosting = SameVps, domain = None, integrations = Items [],
                  createdAtIso = ''t''\<rparr>"
  let ?w = "\<lparr>input = [RText [CHR 0x20], RText longName, RText ''  My Gw '', RAccept, RAccept,
               RAccept, RAccept, RAccept, RChoice Edit, RField FProjectName, RText '' gw2  '',
               RChoice Confirm],
      displayed = []\<rparr>"
  let ?w' = "\<lparr>input = [],
            displayed =
              [\<lparr>projectName = ''My Gw'', network = Testnet, deploymentType = Vps,
                frontendHosting = SameVps, domain = None, integrations = Items [],
                createdAtIso = ''t''\<rparr>, ?m]\<rparr>"
  have run: "collectProjectMetadata (\<lambda>n. ''t'') 0 ?w = Some (Some ?m, ?w')"
    by code_simp
  have t: "trim [CHR 0x20] = []" by code_simp
  have l: "length longName = 65" by (simp add: longName_def)
  have tl: "trim longName \<noteq> []" by code_simp
  from project_name_bounds[of "\<lambda>n. ''t''" 0 ?w ?m ?w' "[CHR 0x20]"]
    project_name_bounds[where v = longName and i = None
      and u = "\<lparr>input = [], displayed = []\<rparr>" and rs = "[RText ''gw'']"]
    run t l tl
  show ?thesis by simp
qed


section \<open>Cancelling an edit\<close>

text \<open>
  A response that the prompt of a field rejects: a text that the field's validator
  refuses. The selections reject nothing.
\<close>

fun rejectedFor :: "Field \<Rightarrow> response \<Rightarrow> bool" where
  "rejectedFor FProjectName (RText s) = (projectName_validate (Some s) \<noteq> None)"
| "rejectedFor FDomain (RText s) = (domain_validate (Some s) \<noteq> None)"
| "rejectedFor _ _ = False"

lemma p_text_loop_rejected_cancel:
  assumes "list_all (\<lambda>r. \<exists>s. r = RText s \<and> validate (Some s) \<noteq> None) bad"
  shows "p_text_loop validate i w (bad @ RCancel # rs) = Some (Cancel, w\<lparr>input := rs\<rparr>)"
  using assms by (induction bad) auto

lemma rejectedFor_select:
  "f \<noteq> FProjectName \<Longrightarrow> f \<noteq> FDomain \<Longrightarrow> list_all (rejectedFor f) bad \<Longrightarrow> bad = []"
  by (cases bad; cases f) auto

lemma rejectedFor_projectName:
  "list_all (rejectedFor FProjectName) bad \<Longrightarrow>
   list_all (\<lambda>r. \<exists>s. r = RText s \<and> projectName_validate (Some s) \<noteq> None) bad"
proof (induction bad)
  case Nil
  then show ?case by simp
next
  case (Cons r bad)
  then show ?case by (cases r) auto
qed

lemma rejectedFor_domain:
  "list_all (rejectedFor FDomain) bad \<Longrightarrow>
   list_all (\<lambda>r. \<exists>s. r = RText s \<and> domain_validate (Some s) \<noteq> None) bad"
proof (induction bad)
  case Nil
  then show ?case by simp
next
  case (Cons r bad)
  then show ?case by (cases r) auto
qed

lemma editField_cancel:
  assumes "list_all (rejectedFor f) bad" and "input w = bad @ RCancel # rs"
  shows "editField meta f w = Some (meta, w\<lparr>input := rs\<rparr>)"
proof (cases f)
  case FProjectName
  with assms show ?thesis
    by (simp add: prompts_projectName_def p_text_def
        p_text_loop_rejected_cancel[OF rejectedFor_projectName])
next
  case FDomain
  with assms show ?thesis
    by (simp add: prompts_domain_def p_text_def
        p_text_loop_rejected_cancel[OF rejectedFor_domain])
next
  case FNetwork
  with assms rejectedFor_select[of f bad] show ?thesis
    by (simp add: prompts_network_def p_select_def)
next
  case FDeploymentType
  with assms rejectedFor_select[of f bad] show ?thesis
    by (simp add: prompts_deploymentType_def p_select_def)
next
  case FFrontendHosting
  with assms rejectedFor_select[of f bad] show ?thesis
    by (simp add: prompts_frontendHosting_def p_select_def)
next
  case FIntegrations
  with assms rejectedFor_select[of f bad] show ?thesis
    by (simp add: prompts_integrations_def p_multiselect_def)
qed

lemma in_allFields:
  "f = FProjectName \<or> f = FNetwork \<or> f = FDeploymentType \<or> f = FFrontendHosting \<or>
   f = FDomain \<or> f = FIntegrations"
  by (cases f) simp_all

text \<open>
  Claim C5. In the review loop, cancelling the choice of the field, or cancelling the
  prompt of any of the six fields (also after inputs the prompt rejected), leaves the
  configuration exactly as it was and goes back to the review prompt: the loop goes on
  with the same configuration, shown again, on the responses that follow.
\<close>

theorem edit_cancel_isolation:
  "(input w = RChoice Edit # RCancel # rs \<longrightarrow>
      editLoop meta w = editLoop meta (w\<lparr>displayed := displayed w @ [meta], input := rs\<rparr>))
   \<and> (list_all (rejectedFor f) bad \<longrightarrow>
        (input w = bad @ RCancel # rs \<longrightarrow>
           editField meta f w = Some (meta, w\<lparr>input := rs\<rparr>)) \<and>
        (input w = RChoice Edit # RField f # bad @ RCancel # rs \<longrightarrow>
           editLoop meta w =
             editLoop meta (w\<lparr>displayed := displayed w @ [meta], input := rs\<rparr>)))"
proof (intro conjI impI)
  assume inp: "input w = RChoice Edit # RCancel # rs"
  show "editLoop meta w = editLoop meta (w\<lparr>displayed := displayed w @ [meta], input := rs\<rparr>)"
  proof (cases "formatSummary meta")
    case None
    then show ?thesis by (simp add: editLoop_throws)
  next
    case (Some y)
    then have nt: "formatSummary meta \<noteq> None" by simp
    from inp show ?thesis by (subst editLoop_unfold[OF nt]) (simp add: p_select_def)
  qed
next
  assume "list_all (rejectedFor f) bad" "input w = bad @ RCancel # rs"
  then show "editField meta f w = Some (meta, w\<lparr>input := rs\<rparr>)"
    by (rule editField_cancel)
next
  assume bad: "list_all (rejectedFor f) bad"
    and inp: "input w = RChoice Edit # RField f # bad @ RCancel # rs"
  let ?w2 = "w\<lparr>displayed := displayed w @ [meta], input := bad @ RCancel # rs\<rparr>"
  have "editField meta f ?w2 = Some (meta, ?w2\<lparr>input := rs\<rparr>)"
    using bad by (rule editField_cancel) simp
  then have ed: "editField meta f ?w2 =
      Some (meta, w\<lparr>displayed := displayed w @ [meta], input := rs\<rparr>)"
    by simp
  show "editLoop meta w =
             editLoop meta (w\<lparr>displayed := displayed w @ [meta], input := rs\<rparr>)"
  proof (cases "formatSummary meta")
    case None
    then show ?thesis by (simp add: editLoop_throws)
  next
    case (Some y)
    then have nt: "formatSummary meta \<noteq> None" by simp
    from inp ed show ?thesis
      by (subst editLoop_unfold[OF nt]) (simp add: p_select_def in_allFields)
  qed
qed


theorem edit_cancel_isolation_witness:
  "editLoop \<lparr>projectName = ''gw'', network = Testnet, deploymentType = Vps,
              frontendHosting = SameVps, domain = Some ''api.example.com'',
              integrations = Items [Auth], createdAtIso = ''t''\<rparr>
     \<lparr>input = [RChoice Edit, RField FDomain, RText ''not a domain!'', RText ''-x.y'', RCancel,
               RChoice Edit, RCancel, RChoice Edit, RField FNetwork, RCancel, RChoice Confirm],
      displayed = []\<rparr> =
   Some (NConfirm,
         \<lparr>projectName = ''gw'', network = Testnet, deploymentType = Vps,
              frontendHosting = SameVps, domain = Some ''api.example.com'',
              integrations = Items [Auth], createdAtIso = ''t''\<rparr>,
         \<lparr>input = [],
          displayed = replicate 4 \<lparr>projectName = ''gw'', network = Testnet, deploymentType = Vps,
              frontendHosting = SameVps, domain = Some ''api.example.com'',
              integrations = Items [Auth], createdAtIso = ''t''\<rparr>\<rparr>)
   \<and> list_all (rejectedFor FDomain) [RText ''not a domain!'', RText ''-x.y'']
   \<and> editField \<lparr>projectName = ''gw'', network = Testnet, deploymentType = Vps,
              frontendHosting = SameVps, domain = Some ''api.example.com'',
              integrations = Items [Auth], createdAtIso = ''t''\<rparr> FDomain
         \<lparr>input = [RText ''not a domain!'', RText ''-x.y'', RCancel, RChoice Confirm],
          displayed = []\<rparr> =
       Some (\<lparr>projectName = ''gw'', network = Testnet, deploymentType = Vps,
              frontendHosting = SameVps, domain = Some ''api.example.com'',
              integrations = Items [Auth], createdAtIso = ''t''\<rparr>,
             \<lparr>input = [RChoice Confirm], displayed = []\<rparr>)"
proof -
  let ?m = "\<lparr>projectName = ''gw'', network = Testnet, deploymentType = Vps,
              frontendHosting = SameVps, domain = Some ''api.example.com'',
              integrations = Items [Auth], createdAtIso = ''t''\<rparr>"
  let ?bad = "[RText ''not a domain!'', RText ''-x.y'']"
  have bad: "list_all (rejectedFor FDomain) ?bad" by code_simp
  have nil: "list_all (rejectedFor FNetwork) []" by simp
  have last: "editLoop ?m \<lparr>input = [RChoice Confirm], displayed = [?m, ?m, ?m]\<rparr> =
      Some (NConfirm, ?m, \<lparr>input = [], displayed = [?m, ?m, ?m, ?m]\<rparr>)"
    by code_simp
  from
    edit_cancel_isolation[of
      "\<lparr>input = [RChoice Edit, RField FDomain, RText ''not a domain!'', RText ''-x.y'', RCancel,
               RChoice Edit, RCancel, RChoice Edit, RField FNetwork, RCancel, RChoice Confirm],
        displayed = []\<rparr>"
      "[RChoice Edit, RCancel, RChoice Edit, RField FNetwork, RCancel, RChoice Confirm]"
      ?m FDomain ?bad]
    edit_cancel_isolation[of
      "\<lparr>input = [RChoice Edit, RCancel, RChoice Edit, RField FNetwork, RCancel, RChoice Confirm],
        displayed = [?m]\<rparr>"
      "[RChoice Edit, RField FNetwork, RCancel, RChoice Confirm]" ?m FNetwork "[]"]
    edit_cancel_isolation[of
      "\<lparr>input = [RChoice Edit, RField FNetwork, RCancel, RChoice Confirm],
        displayed = [?m, ?m]\<rparr>"
      "[RChoice Confirm]" ?m FNetwork "[]"]
    edit_cancel_isolation[of
      "\<lparr>input = [RText ''not a domain!'', RText ''-x.y'', RCancel, RChoice Confirm],
          displayed = []\<rparr>" "[RChoice Confirm]" ?m FDomain ?bad]
    bad nil last
  show ?thesis by (simp add: numeral_eq_Suc)
qed


section \<open>Cancelling during the first pass\<close>

text \<open>
  The group never yields the cancel symbol: a cancelled prompt leaves its placeholder
  and the next prompt opens. So the test of line 169 never holds, and \<open>askAll\<close> never
  returns \<open>null\<close>.
\<close>

lemma p_group_step_Cancel:
  assumes "\<And>a v. k a v \<noteq> Some (Cancel, w')"
  shows "p_group_step r c k \<noteq> Some (Cancel, w')"
  using assms unfolding p_group_step_def by (auto split: option.splits answer.splits)

lemma askAll_group_not_Cancel: "askAll_group w \<noteq> Some (Cancel, w')"
  unfolding askAll_group_def by (intro p_group_step_Cancel) simp

lemma askAll_not_null: "askAll now w \<noteq> Some (None, w')"
  using askAll_group_not_Cancel[of w w']
  unfolding askAll_def by (auto split: option.splits answer.splits)

definition scenarioNetworkCancel :: "response list" where
  "scenarioNetworkCancel =
     [RText ''gw'', RCancel, RAccept, RAccept, RAccept, RAccept, RChoice Confirm]"

definition scenarioIntegrationsCancel :: "response list" where
  "scenarioIntegrationsCancel =
     [RText ''gw'', RAccept, RAccept, RAccept, RAccept, RCancel, RChoice Confirm]"


text \<open>
  Claim C6. The specification wants a cancel at any prompt of the first pass to end the
  pass at once with \<open>null\<close>, no partial configuration exposed. The code does not do
  so: the handler of line 166 only prints, and the test of line 169 never holds. When
  the operator cancels the network prompt, accepts the remaining defaults and confirms,
  \<open>collectProjectMetadata\<close> shows and returns a configuration whose network is the
  placeholder \<open>canceled\<close>. When the script ends with the cancel at the network prompt,
  the run does not return: the deployment prompt is open and waits. When the operator
  cancels the integrations prompt, \<open>askAll\<close> returns a configuration whose integrations
  are the placeholder string, on which \<open>formatSummary\<close> throws at line 47, so
  \<open>collectProjectMetadata\<close> does not return either.
\<close>

theorem pass_cancel_continues:
  "collectProjectMetadata (\<lambda>n. ''t'') 0 \<lparr>input = scenarioNetworkCancel, displayed = []\<rparr> =
     Some (Some \<lparr>projectName = ''gw'', network = CanceledNetwork, deploymentType = Vps,
                  frontendHosting = SameVps, domain = None,
                  integrations = Items [], createdAtIso = ''t''\<rparr>,
           \<lparr>input = [],
            displayed = [\<lparr>projectName = ''gw'', network = CanceledNetwork,
                  deploymentType = Vps, frontendHosting = SameVps, domain = None,
                  integrations = Items [], createdAtIso = ''t''\<rparr>]\<rparr>)
   \<and> collectProjectMetadata (\<lambda>n. ''t'') 0 \<lparr>input = [RText ''gw'', RCancel], displayed = []\<rparr> =
       None
   \<and> prompts_deploymentType None \<lparr>input = [], displayed = []\<rparr> = None
   \<and> askAll ''t'' \<lparr>input = scenarioIntegrationsCancel, displayed = []\<rparr> =
       Some (Some \<lparr>projectName = ''gw'', network = Testnet, deploymentType = Vps,
                    frontendHosting = SameVps, domain = None,
                    integrations = CanceledText, createdAtIso = ''t''\<rparr>,
             \<lparr>input = [RChoice Confirm], displayed = []\<rparr>)
   \<and> formatSummary \<lparr>projectName = ''gw'', network = Testnet, deploymentType = Vps,
                    frontendHosting = SameVps, domain = None,
                    integrations = CanceledText, createdAtIso = ''t''\<rparr> = None
   \<and> collectProjectMetadata (\<lambda>n. ''t'') 0
         \<lparr>input = scenarioIntegrationsCancel, displayed = []\<rparr> = None"
  by code_simp


section \<open>The creation time\<close>

definition clockA :: "nat \<Rightarrow> string" where
  "clockA k = (if k = 0 then ''2025-01-01T10:00:00.000Z'' else ''2025-01-01T10:05:00.000Z'')"

definition scenarioEdits :: "response list" where
  "scenarioEdits =
     [RText ''one'', RAccept, RAccept, RAccept, RAccept, RAccept, RChoice StartOver,
      RText ''two'', RAccept, RAccept, RAccept, RAccept, RAccept,
      RChoice Edit, RField FProjectName, RText ''three'',
      RChoice Edit, RField FNetwork, RNetwork Mainnet,
      RChoice Edit, RField FDeploymentType, RDeployment Local,
      RChoice Edit, RField FFrontendHosting, RHosting Skip,
      RChoice Edit, RField FDomain, RText ''localhost'',
      RChoice Edit, RField FIntegrations, RIntegrations [Stripe],
      RChoice Confirm]"

lemma normalize_createdAtIso [simp]:
  "createdAtIso (normalizeFrontendHosting m) = createdAtIso m"
  by (simp add: normalizeFrontendHosting_def)

lemma askAll_createdAtIso:
  "askAll now w = Some (Some m, w') \<Longrightarrow> createdAtIso m = now"
  using askAll_Some_meta[of now w m w'] by (auto simp: askAll_meta_def)

lemma editField_createdAtIso:
  "editField meta f w = Some (meta', w') \<Longrightarrow> createdAtIso meta' = createdAtIso meta"
  by (cases f) (auto split: option.splits answer.splits)

lemma editLoop_createdAtIso:
  assumes "editLoop meta w = Some (nx, meta', w')"
  shows "createdAtIso meta' = createdAtIso meta"
  using assms
proof (rule editLoop_invariant[where I = "\<lambda>m v. createdAtIso m = createdAtIso meta"])
  fix m f v m1 v1
  assume "createdAtIso m = createdAtIso meta" "editField m f v = Some (m1, v1)"
  then show "createdAtIso m1 = createdAtIso meta"
    using editField_createdAtIso[of m f v m1 v1] by simp
qed simp_all

text \<open>
  Claim C9. \<open>createdAtIso\<close> is set when a collection pass completes, to the time read
  then; no edit of a field and no run of the review loop changes it; and the
  configuration that \<open>collectProjectMetadata\<close> returns carries the time of the pass
  that produced it, the pass whose review ended on \<open>confirm\<close>.
\<close>

theorem createdAtIso_set_once:
  "(askAll now w = Some (Some m, w1) \<longrightarrow> createdAtIso m = now)
   \<and> (editField meta f w = Some (meta', w') \<longrightarrow> createdAtIso meta' = createdAtIso meta)
   \<and> (editLoop meta w = Some (nx, meta', w') \<longrightarrow> createdAtIso meta' = createdAtIso meta)
   \<and> (collectProjectMetadata clock n w = Some (Some meta, w') \<longrightarrow>
        (\<exists>k v m v1. n \<le> k \<and> askAll (clock k) v = Some (Some m, v1) \<and>
           editLoop m v1 = Some (NConfirm, meta, w') \<and> createdAtIso meta = clock k))"
proof (intro conjI impI)
  assume "askAll now w = Some (Some m, w1)"
  then show "createdAtIso m = now" by (rule askAll_createdAtIso)
next
  assume "editField meta f w = Some (meta', w')"
  then show "createdAtIso meta' = createdAtIso meta" by (rule editField_createdAtIso)
next
  assume "editLoop meta w = Some (nx, meta', w')"
  then show "createdAtIso meta' = createdAtIso meta" by (rule editLoop_createdAtIso)
next
  assume "collectProjectMetadata clock n w = Some (Some meta, w')"
  from collect_confirmed[OF this] obtain k v m v1 where
    k: "n \<le> k" and a: "askAll (clock k) v = Some (Some m, v1)"
    and l: "editLoop m v1 = Some (NConfirm, meta, w')" by blast
  from editLoop_createdAtIso[OF l] askAll_createdAtIso[OF a]
  have "createdAtIso meta = clock k" by simp
  with k a l show "\<exists>k v m v1. n \<le> k \<and> askAll (clock k) v = Some (Some m, v1) \<and>
           editLoop m v1 = Some (NConfirm, meta, w') \<and> createdAtIso meta = clock k"
    by blast
qed


theorem createdAtIso_set_once_witness:
  "map_option (\<lambda>(r, w'). (r, input w'))
     (collectProjectMetadata clockA 0 \<lparr>input = scenarioEdits, displayed = []\<rparr>) =
     Some (Some \<lparr>projectName = ''three'', network = Mainnet, deploymentType = Local,
                  frontendHosting = Skip, domain = Some ''localhost'',
                  integrations = Items [Stripe], createdAtIso = ''2025-01-01T10:05:00.000Z''\<rparr>, [])
   \<and> clockA 1 = ''2025-01-01T10:05:00.000Z''
   \<and> map_option (\<lambda>(r, w'). map_option createdAtIso r)
        (askAll ''2025-01-01T10:00:00.000Z'' \<lparr>input = scenarioEdits, displayed = []\<rparr>) =
       Some (Some ''2025-01-01T10:00:00.000Z'')
   \<and> map_option (\<lambda>(m, w'). createdAtIso m)
        (editField \<lparr>projectName = ''two'', network = Testnet, deploymentType = Vps,
                  frontendHosting = SameVps, domain = None,
                  integrations = Items [], createdAtIso = ''2025-01-01T10:05:00.000Z''\<rparr>
           FDeploymentType \<lparr>input = [RDeployment Local], displayed = []\<rparr>) =
       Some ''2025-01-01T10:05:00.000Z''
   \<and> map_option (\<lambda>(nx, m, w'). (nx, createdAtIso m))
        (editLoop \<lparr>projectName = ''two'', network = Testnet, deploymentType = Vps,
                  frontendHosting = SameVps, domain = None,
                  integrations = Items [], createdAtIso = ''2025-01-01T10:05:00.000Z''\<rparr>
           \<lparr>input = drop 13 scenarioEdits, displayed = []\<rparr>) =
       Some (NConfirm, ''2025-01-01T10:05:00.000Z'')"
proof -
  let ?m = "\<lparr>projectName = ''three'', network = Mainnet, deploymentType = Local,
                  frontendHosting = Skip, domain = Some ''localhost'',
                  integrations = Items [Stripe], createdAtIso = ''2025-01-01T10:05:00.000Z''\<rparr>"
  let ?m2 = "\<lparr>projectName = ''two'', network = Testnet, deploymentType = Vps,
                  frontendHosting = SameVps, domain = None,
                  integrations = Items [], createdAtIso = ''2025-01-01T10:05:00.000Z''\<rparr>"
  let ?w = "\<lparr>input = scenarioEdits, displayed = []\<rparr>"
  have run: "map_option (\<lambda>(r, w'). (r, input w')) (collectProjectMetadata clockA 0 ?w) =
     Some (Some ?m, [])"
    by code_simp
  then obtain w' where c: "collectProjectMetadata clockA 0 ?w = Some (Some ?m, w')"
    by (cases "collectProjectMetadata clockA 0 ?w") auto
  have ask: "map_option (\<lambda>(r, w'). map_option createdAtIso r)
        (askAll ''2025-01-01T10:00:00.000Z'' ?w) = Some (Some ''2025-01-01T10:00:00.000Z'')"
    by code_simp
  then obtain m1 w1 where a: "askAll ''2025-01-01T10:00:00.000Z'' ?w = Some (Some m1, w1)"
    by (cases "askAll ''2025-01-01T10:00:00.000Z'' ?w") auto
  obtain m3 w3 where e: "editField ?m2 FDeploymentType
      \<lparr>input = [RDeployment Local], displayed = []\<rparr> = Some (m3, w3)"
    by (simp add: prompts_deploymentType_def p_select_def)
  have "map_option (\<lambda>(nx, m, w'). nx)
        (editLoop ?m2 \<lparr>input = drop 13 scenarioEdits, displayed = []\<rparr>) = Some NConfirm"
    by code_simp
  then obtain m4 w4 where l: "editLoop ?m2 \<lparr>input = drop 13 scenarioEdits, displayed = []\<rparr> =
      Some (NConfirm, m4, w4)"
    by (cases "editLoop ?m2 \<lparr>input = drop 13 scenarioEdits, displayed = []\<rparr>") auto
  have k: "clockA 1 = ''2025-01-01T10:05:00.000Z''" by (simp add: clockA_def)
  from createdAtIso_set_once[of "''2025-01-01T10:00:00.000Z''" ?w m1 w1]
    createdAtIso_set_once[where meta = ?m2 and f = FDeploymentType
      and w = "\<lparr>input = [RDeployment Local], displayed = []\<rparr>" and meta' = m3 and w' = w3]
    createdAtIso_set_once[where meta = ?m2
      and w = "\<lparr>input = drop 13 scenarioEdits, displayed = []\<rparr>" and nx = NConfirm
      and meta' = m4 and w' = w4]
    createdAtIso_set_once[where clock = clockA and n = 0 and w = ?w and meta = ?m and w' = w']
    run a e l k c
  show ?thesis by simp
qed


section \<open>Starting over\<close>

text \<open>
  What a run gives does not depend on the summaries shown before it: \<open>outcome\<close> keeps
  the result and the responses left, and a run from a terminal with another list of
  shown summaries has the same outcome.
\<close>

definition reframe :: "ProjectMetadata list \<Rightarrow> ('a \<times> world) option \<Rightarrow> ('a \<times> world) option" where
  "reframe d r = map_option (\<lambda>(a, w'). (a, w'\<lparr>displayed := d\<rparr>)) r"

lemma reframe_simps [simp]:
  "reframe d None = None"
  "reframe d (Some (a, w)) = Some (a, w\<lparr>displayed := d\<rparr>)"
  by (simp_all add: reframe_def)

lemma p_text_loop_frame:
  "p_text_loop validate i (w\<lparr>displayed := d\<rparr>) rs = reframe d (p_text_loop validate i w rs)"
proof (induction rs)
  case Nil
  then show ?case by simp
next
  case (Cons r rs)
  then show ?case by (cases r) (simp_all add: Let_def split: option.splits)
qed

lemma p_text_frame:
  "p_text validate i (w\<lparr>displayed := d\<rparr>) = reframe d (p_text validate i w)"
  by (simp add: p_text_def p_text_loop_frame)

lemma p_select_frame:
  "p_select pick opts i (w\<lparr>displayed := d\<rparr>) = reframe d (p_select pick opts i w)"
  by (simp add: p_select_def split: list.splits option.splits)

lemma p_multiselect_frame:
  "p_multiselect opts i (w\<lparr>displayed := d\<rparr>) = reframe d (p_multiselect opts i w)"
  by (simp add: p_multiselect_def split: list.splits response.splits)

lemma editField_frame:
  "editField meta f (w\<lparr>displayed := d\<rparr>) =
     reframe d (editField meta f w)"
  by (cases f)
     (simp_all add: prompts_projectName_def prompts_network_def prompts_deploymentType_def
        prompts_frontendHosting_def prompts_domain_def prompts_integrations_def
        p_text_frame p_select_frame p_multiselect_frame
        split: option.splits answer.splits)

lemma p_group_step_frame:
  assumes "r' = reframe d r" and "\<And>a v. k a (v\<lparr>displayed := d\<rparr>) = reframe d (k a v)"
  shows "p_group_step r' c k = reframe d (p_group_step r c k)"
  using assms by (auto simp: p_group_step_def split: option.splits answer.splits)

lemma askAll_group_frame:
  "askAll_group (w\<lparr>displayed := d\<rparr>) = reframe d (askAll_group w)"
  unfolding askAll_group_def prompts_projectName_def prompts_network_def
    prompts_deploymentType_def prompts_frontendHosting_def prompts_domain_def
    prompts_integrations_def
  by (intro p_group_step_frame p_text_frame p_select_frame p_multiselect_frame) simp

lemma askAll_frame:
  "askAll now (w\<lparr>displayed := d\<rparr>) = reframe d (askAll now w)"
  by (simp add: askAll_def askAll_group_frame split: option.splits answer.splits)


definition outcome :: "('a \<times> world) option \<Rightarrow> ('a \<times> response list) option" where
  "outcome r = map_option (\<lambda>(a, w'). (a, input w')) r"

lemma outcome_simps [simp]:
  "outcome None = None"
  "outcome (Some (a, w)) = Some (a, input w)"
  by (simp_all add: outcome_def)

lemma outcome_reframe [simp]: "outcome (reframe d r) = outcome r"
  by (cases r) auto

definition loopOutcome ::
  "(Next \<times> ProjectMetadata \<times> world) option
     \<Rightarrow> (Next \<times> ProjectMetadata \<times> response list) option" where
  "loopOutcome r = map_option (\<lambda>(nx, m, w'). (nx, m, input w')) r"

lemma loopOutcome_simps [simp]:
  "loopOutcome None = None"
  "loopOutcome (Some (nx, m, w)) = Some (nx, m, input w)"
  by (simp_all add: loopOutcome_def)

lemma editLoop_frame:
  "loopOutcome (editLoop meta (w\<lparr>displayed := d\<rparr>)) = loopOutcome (editLoop meta w)"
proof (induction meta w arbitrary: d rule: editLoop.induct)
  case (1 meta w)
  let ?w0 = "w\<lparr>displayed := displayed w @ [meta]\<rparr>"
  let ?d = "d @ [meta]"
  let ?fields = "[FProjectName, FNetwork, FDeploymentType, FFrontendHosting, FDomain,
                     FIntegrations]"
  have n1: "Edit \<noteq> Confirm" and n2: "Edit \<noteq> StartOver" and n3: "Edit \<noteq> CancelSetup"
    by simp_all
  have sel_d: "p_select pickChoice [Confirm, Edit, StartOver, CancelSetup] (Some Confirm)
                 (w\<lparr>displayed := ?d\<rparr>) =
               reframe ?d (p_select pickChoice [Confirm, Edit, StartOver, CancelSetup]
                 (Some Confirm) ?w0)"
    using p_select_frame[where w = ?w0 and d = ?d and pick = pickChoice] by simp
  show ?case
  proof (cases "formatSummary meta = None")
    case True
    then show ?thesis by (simp add: editLoop_throws)
  next
    case nt: False
    note body = editLoop_unfold[OF nt]
    show ?thesis
  proof (cases "p_select pickChoice [Confirm, Edit, StartOver, CancelSetup] (Some Confirm) ?w0")
    case None
    then have "editLoop meta w = None" "editLoop meta (w\<lparr>displayed := d\<rparr>) = None"
      by (subst body, simp add: sel_d)+
    then show ?thesis by simp
  next
    case (Some x)
    obtain a w1 where x: "x = (a, w1)" by (cases x)
    note sel = Some[unfolded x]
    show ?thesis
    proof (cases "a = Value Edit")
      case False
      then have "\<exists>nx. editLoop meta w = Some (nx, meta, w1) \<and>
                 editLoop meta (w\<lparr>displayed := d\<rparr>) = Some (nx, meta, w1\<lparr>displayed := ?d\<rparr>)"
      proof (cases a)
        case Cancel
        then show ?thesis
          by (subst body, subst (2) body) (simp add: sel sel_d)
      next
        case (Value c)
        with False show ?thesis
          by (subst body, subst (2) body) (cases c; simp add: sel sel_d)
      qed
      then show ?thesis by auto
    next
      case True
      have L: "editLoop meta (w\<lparr>displayed := d\<rparr>) =
                (case reframe ?d (p_select pickField ?fields None w1) of
                   None \<Rightarrow> None
                 | Some (Cancel, w2) \<Rightarrow> editLoop meta w2
                 | Some (Value field, w2) \<Rightarrow>
                     (case editField meta field w2 of
                        None \<Rightarrow> None
                      | Some (meta', w3) \<Rightarrow> editLoop meta' w3))"
        by (subst body)
           (simp add: sel sel_d True p_select_frame[where w = w1 and pick = pickField])
      have R: "editLoop meta w =
                (case p_select pickField ?fields None w1 of
                   None \<Rightarrow> None
                 | Some (Cancel, w2) \<Rightarrow> editLoop meta w2
                 | Some (Value field, w2) \<Rightarrow>
                     (case editField meta field w2 of
                        None \<Rightarrow> None
                      | Some (meta', w3) \<Rightarrow> editLoop meta' w3))"
        by (subst body) (simp add: sel True)
      show ?thesis
      proof (cases "p_select pickField ?fields None w1")
        case None
        with L R show ?thesis by simp
      next
        case (Some y)
        obtain b w2 where y: "y = (b, w2)" by (cases y)
        note fsel = Some[unfolded y]
        show ?thesis
        proof (cases b)
          case Cancel
          have "loopOutcome (editLoop meta (w2\<lparr>displayed := ?d\<rparr>)) = loopOutcome (editLoop meta w2)"
            by (rule "1.IH"(1)[OF nt sel refl True n1 n2 n3 fsel refl Cancel])
          with L R fsel Cancel show ?thesis by simp
        next
          case (Value f)
          show ?thesis
          proof (cases "editField meta f w2")
            case None
            with L R fsel Value show ?thesis by (simp add: editField_frame)
          next
            case (Some z)
            obtain m3 w3 where z: "z = (m3, w3)" by (cases z)
            note ed = Some[unfolded z]
            have "loopOutcome (editLoop m3 (w3\<lparr>displayed := ?d\<rparr>)) = loopOutcome (editLoop m3 w3)"
              by (rule "1.IH"(2)[OF nt sel refl True n1 n2 n3 fsel refl Value ed refl])
            with L R fsel Value ed show ?thesis by (simp add: editField_frame)
          qed
        qed
      qed
    qed
  qed
qed
  qed


lemma world_same_input:
  "input (v :: world) = input (w :: world) \<Longrightarrow> v = w\<lparr>displayed := displayed v\<rparr>"
  by (cases v, cases w) simp

lemma loopOutcome_eq_Some:
  assumes "loopOutcome r = loopOutcome (Some (nx, m, w))"
  shows "\<exists>v. r = Some (nx, m, v) \<and> input v = input w"
  using assms by (cases r) (auto simp: loopOutcome_def)

lemma collect_frame:
  "outcome (collectProjectMetadata clock n (w\<lparr>displayed := d\<rparr>)) =
   outcome (collectProjectMetadata clock n w)"
proof (induction clock n w arbitrary: d rule: collectProjectMetadata.induct)
  case (1 clock n w)
  have ask_d: "askAll (clock n) (w\<lparr>displayed := d\<rparr>) = reframe d (askAll (clock n) w)"
    by (rule askAll_frame)
  show ?case
  proof (cases "askAll (clock n) w")
    case None
    then show ?thesis
      by (subst collectProjectMetadata.simps, subst (2) collectProjectMetadata.simps)
         (simp add: ask_d)
  next
    case (Some x)
    obtain r w1 where x: "x = (r, w1)" by (cases x)
    note ask = Some[unfolded x]
    show ?thesis
    proof (cases r)
      case None
      with ask show ?thesis
        by (subst collectProjectMetadata.simps, subst (2) collectProjectMetadata.simps)
           (simp add: ask_d)
    next
      case (Some m)
      have L: "collectProjectMetadata clock n (w\<lparr>displayed := d\<rparr>) =
          (case editLoop m (w1\<lparr>displayed := d\<rparr>) of
             None \<Rightarrow> None
           | Some (next, meta', w2) \<Rightarrow>
               if next = NConfirm then Some (Some meta', w2)
               else if next = NCancel then Some (None, w2)
               else collectProjectMetadata clock (Suc n) w2)"
        by (subst collectProjectMetadata.simps) (simp add: ask_d ask Some)
      have R: "collectProjectMetadata clock n w =
          (case editLoop m w1 of
             None \<Rightarrow> None
           | Some (next, meta', w2) \<Rightarrow>
               if next = NConfirm then Some (Some meta', w2)
               else if next = NCancel then Some (None, w2)
               else collectProjectMetadata clock (Suc n) w2)"
        by (subst collectProjectMetadata.simps) (simp add: ask Some)
      have fr: "loopOutcome (editLoop m (w1\<lparr>displayed := d\<rparr>)) = loopOutcome (editLoop m w1)"
        by (rule editLoop_frame)
      show ?thesis
      proof (cases "editLoop m w1")
        case None
        with fr have "editLoop m (w1\<lparr>displayed := d\<rparr>) = None"
          by (simp add: loopOutcome_def)
        with None L R show ?thesis by simp
      next
        case (Some y)
        obtain nx m' w2 where y: "y = (nx, m', w2)" by (cases y)
        note loop = Some[unfolded y]
        from fr loop loopOutcome_eq_Some[of "editLoop m (w1\<lparr>displayed := d\<rparr>)" nx m' w2]
        obtain v2 where loop_d: "editLoop m (w1\<lparr>displayed := d\<rparr>) = Some (nx, m', v2)"
          and inp: "input v2 = input w2" by auto
        show ?thesis
        proof (cases "nx = NConfirm \<or> nx = NCancel")
          case True
          with L R loop loop_d inp show ?thesis by auto
        next
          case False
          then have n1: "nx \<noteq> NConfirm" and n2: "nx \<noteq> NCancel" by simp_all
          have "outcome (collectProjectMetadata clock (Suc n) (w2\<lparr>displayed := displayed v2\<rparr>)) =
                outcome (collectProjectMetadata clock (Suc n) w2)"
            by (rule "1.IH"[OF ask refl \<open>r = Some m\<close> loop refl refl n1 n2])
          with world_same_input[OF inp] L R loop loop_d n1 n2 show ?thesis by simp
        qed
      qed
    qed
  qed
qed


definition scenarioE :: "response list" where
  "scenarioE =
     [RText ''first'', RNetwork Mainnet, RDeployment Local, RHosting Skip,
      RText ''a.example.com'', RIntegrations [Stripe, Auth],
      RChoice Edit, RField FProjectName, RText ''first-edited'', RChoice StartOver,
      RText ''second'', RAccept, RAccept, RAccept, RAccept, RAccept, RChoice Confirm]"


text \<open>
  Claim C7. After \<open>start-over\<close> at the review prompt, \<open>collectProjectMetadata\<close> goes
  on exactly as a fresh run on the responses that follow: the discarded configuration
  occurs nowhere in what decides the result. The fresh pass starts from the fixed
  defaults: accepting every selection as offered gives \<open>testnet\<close>, \<open>vps\<close>,
  \<open>same-vps\<close> (\<open>vercel\<close> when \<open>local\<close> was chosen), no domain and no
  integrations.
\<close>

theorem start_over_discards:
  "(askAll (clock n) w = Some (Some m, w1) \<longrightarrow>
    editLoop m w1 = Some (NStartOver, m', w2) \<longrightarrow>
      collectProjectMetadata clock n w = collectProjectMetadata clock (Suc n) w2 \<and>
      outcome (collectProjectMetadata clock n w) =
        outcome (collectProjectMetadata clock (Suc n) \<lparr>input = input w2, displayed = []\<rparr>))
   \<and> (projectName_validate (Some name) = None \<longrightarrow>
        input v = RText name # RAccept # RAccept # RAccept # RAccept # RAccept # rs \<longrightarrow>
        askAll now v =
          Some (Some \<lparr>projectName = trim name, network = Testnet, deploymentType = Vps,
                       frontendHosting = SameVps, domain = None, integrations = Items [],
                       createdAtIso = now\<rparr>, v\<lparr>input := rs\<rparr>))
   \<and> (projectName_validate (Some name) = None \<longrightarrow>
        input v = RText name # RAccept # RDeployment Local # RAccept # RAccept # RAccept # rs \<longrightarrow>
        askAll now v =
          Some (Some \<lparr>projectName = trim name, network = Testnet, deploymentType = Local,
                       frontendHosting = Vercel, domain = None, integrations = Items [],
                       createdAtIso = now\<rparr>, v\<lparr>input := rs\<rparr>))"
proof (intro conjI impI)
  assume a: "askAll (clock n) w = Some (Some m, w1)"
    and l: "editLoop m w1 = Some (NStartOver, m', w2)"
  then show eq: "collectProjectMetadata clock n w = collectProjectMetadata clock (Suc n) w2"
    by (subst collectProjectMetadata.simps) simp
  have "w2\<lparr>displayed := []\<rparr> = \<lparr>input = input w2, displayed = []\<rparr>"
    by (cases w2) simp
  with collect_frame[where clock = clock and n = "Suc n" and w = w2 and d = "[]"] eq
  show "outcome (collectProjectMetadata clock n w) =
        outcome (collectProjectMetadata clock (Suc n) \<lparr>input = input w2, displayed = []\<rparr>)"
    by simp
next
  have blank: "domain_validate (Some []) = None" "normalizeDomain (Some []) = None"
    by (simp_all add: domain_validate_def normalizeDomain_def)
  { assume "projectName_validate (Some name) = None"
      "input v = RText name # RAccept # RAccept # RAccept # RAccept # RAccept # rs"
    then show "askAll now v =
          Some (Some \<lparr>projectName = trim name, network = Testnet, deploymentType = Vps,
                       frontendHosting = SameVps, domain = None, integrations = Items [],
                       createdAtIso = now\<rparr>, v\<lparr>input := rs\<rparr>)"
      by (simp add: askAll_def askAll_group_def p_group_step_def askAll_meta_def
          prompts_projectName_def prompts_network_def prompts_deploymentType_def
          prompts_frontendHosting_def prompts_domain_def prompts_integrations_def
          p_text_def p_select_def p_multiselect_def orElse_def blank
          normalizeFrontendHosting_def) }
  { assume "projectName_validate (Some name) = None"
      "input v = RText name # RAccept # RDeployment Local # RAccept # RAccept # RAccept # rs"
    then show "askAll now v =
          Some (Some \<lparr>projectName = trim name, network = Testnet, deploymentType = Local,
                       frontendHosting = Vercel, domain = None, integrations = Items [],
                       createdAtIso = now\<rparr>, v\<lparr>input := rs\<rparr>)"
      by (simp add: askAll_def askAll_group_def p_group_step_def askAll_meta_def
          prompts_projectName_def prompts_network_def prompts_deploymentType_def
          prompts_frontendHosting_def prompts_domain_def prompts_integrations_def
          p_text_def p_select_def p_multiselect_def orElse_def blank
          normalizeFrontendHosting_def) }
qed

theorem start_over_discards_witness:
  "outcome (collectProjectMetadata clockA 0 \<lparr>input = scenarioE, displayed = []\<rparr>) =
     Some (Some \<lparr>projectName = ''second'', network = Testnet, deploymentType = Vps,
                  frontendHosting = SameVps, domain = None, integrations = Items [],
                  createdAtIso = ''2025-01-01T10:05:00.000Z''\<rparr>, [])
   \<and> outcome (collectProjectMetadata clockA 1 \<lparr>input = drop 10 scenarioE, displayed = []\<rparr>) =
     Some (Some \<lparr>projectName = ''second'', network = Testnet, deploymentType = Vps,
                  frontendHosting = SameVps, domain = None, integrations = Items [],
                  createdAtIso = ''2025-01-01T10:05:00.000Z''\<rparr>, [])
   \<and> outcome (askAll ''t'' \<lparr>input = [RText ''gw'', RAccept, RDeployment Local, RAccept, RAccept,
                                     RAccept], displayed = []\<rparr>) =
     Some (Some \<lparr>projectName = ''gw'', network = Testnet, deploymentType = Local,
                  frontendHosting = Vercel, domain = None, integrations = Items [],
                  createdAtIso = ''t''\<rparr>, [])"
proof -
  let ?w = "\<lparr>input = scenarioE, displayed = []\<rparr>"
  let ?m = "\<lparr>projectName = ''first'', network = Mainnet, deploymentType = Local,
             frontendHosting = Skip, domain = Some ''a.example.com'',
             integrations = Items [Stripe, Auth], createdAtIso = ''2025-01-01T10:00:00.000Z''\<rparr>"
  let ?m' = "?m\<lparr>projectName := ''first-edited''\<rparr>"
  let ?w1 = "\<lparr>input = drop 6 scenarioE, displayed = []\<rparr>"
  let ?w2 = "\<lparr>input = drop 10 scenarioE, displayed = [?m, ?m']\<rparr>"
  have a: "askAll (clockA 0) ?w = Some (Some ?m, ?w1)" by code_simp
  have l: "editLoop ?m ?w1 = Some (NStartOver, ?m', ?w2)" by code_simp
  have i: "input ?w2 = drop 10 scenarioE" by simp
  have fresh: "outcome (collectProjectMetadata clockA 1
       \<lparr>input = drop 10 scenarioE, displayed = []\<rparr>) =
     Some (Some \<lparr>projectName = ''second'', network = Testnet, deploymentType = Vps,
                  frontendHosting = SameVps, domain = None, integrations = Items [],
                  createdAtIso = ''2025-01-01T10:05:00.000Z''\<rparr>, [])"
    by code_simp
  have v: "projectName_validate (Some ''gw'') = None" "trim ''gw'' = ''gw''" by code_simp+
  note th = start_over_discards[where clock = clockA and n = 0 and w = ?w and m = ?m
      and ?w1.0 = ?w1 and m' = ?m' and ?w2.0 = ?w2 and name = "''gw''" and now = "''t''"
      and v = "\<lparr>input = [RText ''gw'', RAccept, RDeployment Local, RAccept, RAccept,
                                     RAccept], displayed = []\<rparr>" and rs = "[]"]
  from th a l have "outcome (collectProjectMetadata clockA 0 ?w) =
      outcome (collectProjectMetadata clockA (Suc 0) \<lparr>input = input ?w2, displayed = []\<rparr>)"
    by blast
  with fresh have c1: "outcome (collectProjectMetadata clockA 0 ?w) =
     Some (Some \<lparr>projectName = ''second'', network = Testnet, deploymentType = Vps,
                  frontendHosting = SameVps, domain = None, integrations = Items [],
                  createdAtIso = ''2025-01-01T10:05:00.000Z''\<rparr>, [])"
    by simp
  from th v have "askAll ''t'' \<lparr>input = [RText ''gw'', RAccept, RDeployment Local, RAccept,
      RAccept, RAccept], displayed = []\<rparr> =
     Some (Some \<lparr>projectName = ''gw'', network = Testnet, deploymentType = Local,
                  frontendHosting = Vercel, domain = None, integrations = Items [],
                  createdAtIso = ''t''\<rparr>, \<lparr>input = [], displayed = []\<rparr>)"
    by simp
  then have c3: "outcome (askAll ''t'' \<lparr>input = [RText ''gw'', RAccept, RDeployment Local,
      RAccept, RAccept, RAccept], displayed = []\<rparr>) =
     Some (Some \<lparr>projectName = ''gw'', network = Testnet, deploymentType = Local,
                  frontendHosting = Vercel, domain = None, integrations = Items [],
                  createdAtIso = ''t''\<rparr>, [])"
    by simp
  from c1 fresh c3 show ?thesis by simp
qed


end
